theory Spec2Isabelle
  imports Complex_Main "HOL-Library.AList" "HOL-Library.Log_Nat"
begin

section \<open>Python values, errors and arithmetic\<close>

text \<open>
  The fog node is written in Python. An exception raised by the source is a value
  \<open>Inl e\<close> of the result type \<open>py_error + 'a\<close>; a normal return is \<open>Inr v\<close>.
\<close>

datatype py_error =
  IndexError | KeyError | TypeError | ValueError | ZeroDivisionError | OverflowError
  | QueueFull | QueueEmpty

definition bind_err :: "'e + 'a \<Rightarrow> ('a \<Rightarrow> 'e + 'b) \<Rightarrow> 'e + 'b" where
  "bind_err m f = (case m of Inl e \<Rightarrow> Inl e | Inr v \<Rightarrow> f v)"

text \<open>
  The values a packet field can hold are the values of a decoded JSON document
  (tshark's output) and of the simulated generator: null, booleans, integers, strings,
  lists and dictionaries with string keys. A dictionary is an association list; a
  lookup takes the first entry of a key.
\<close>

datatype pyval =
  PNone
  | PBool bool
  | PInt int
  | PStr string
  | PList "pyval list"
  | PDict "(string \<times> pyval) list"

type_synonym pydict = "(string \<times> pyval) list"

definition has_key :: "pydict \<Rightarrow> string \<Rightarrow> bool" where
  \<comment> \<open>\<^verbatim>\<open>key in d\<close>\<close>
  "has_key d k = (map_of d k \<noteq> None)"

fun truthy :: "pyval \<Rightarrow> bool" where
  \<comment> \<open>the truth value Python's \<^verbatim>\<open>if v\<close> and \<^verbatim>\<open>a and b\<close> test\<close>
  "truthy PNone = False"
| "truthy (PBool b) = b"
| "truthy (PInt i) = (i \<noteq> 0)"
| "truthy (PStr s) = (s \<noteq> [])"
| "truthy (PList xs) = (xs \<noteq> [])"
| "truthy (PDict d) = (d \<noteq> [])"

fun hashable :: "pyval \<Rightarrow> bool" where
  \<comment> \<open>lists and dictionaries cannot be members of a set or of a dictionary key\<close>
  "hashable (PList xs) = False"
| "hashable (PDict d) = False"
| "hashable v = True"

fun hash_key :: "pyval \<Rightarrow> pyval" where
  \<comment> \<open>\<^verbatim>\<open>True == 1\<close> and \<^verbatim>\<open>False == 0\<close> are the same set member\<close>
  "hash_key (PBool b) = PInt (if b then 1 else 0)"
| "hash_key v = v"

subsection \<open>\<^verbatim>\<open>int(s)\<close> on a string\<close>

text \<open>
  \<^verbatim>\<open>int(s)\<close> in base 10: surrounding whitespace is stripped, one sign is allowed, then
  decimal digits, where single underscores may separate digits. Anything else raises
  ValueError (here \<open>None\<close>), and so does a string of more than 4300 digits (the
  default of \<^verbatim>\<open>sys.set_int_max_str_digits\<close>; leading zeros count, underscores, the sign
  and the whitespace do not). Strings are byte strings here, so only ASCII digits are
  recognised, and the whitespace is the ASCII whitespace: the bytes 9 to 13 and 32.
\<close>

definition is_space :: "char \<Rightarrow> bool" where
  "is_space c = (let n = (of_char c :: nat) in (9 \<le> n \<and> n \<le> 13) \<or> n = 32)"

definition is_digit :: "char \<Rightarrow> bool" where
  "is_digit c = (let n = (of_char c :: nat) in 48 \<le> n \<and> n \<le> 57)"

definition digit_val :: "char \<Rightarrow> int" where
  "digit_val c = int (of_char c) - 48"

fun parse_digits :: "int \<Rightarrow> string \<Rightarrow> int option" where
  \<comment> \<open>the digits after the first one, which is already in the accumulator\<close>
  "parse_digits acc [] = Some acc"
| "parse_digits acc [c] = (if is_digit c then Some (acc * 10 + digit_val c) else None)"
| "parse_digits acc (c # d # ds) =
     (if is_digit c then parse_digits (acc * 10 + digit_val c) (d # ds)
      else if c = CHR ''_'' \<and> is_digit d then parse_digits (acc * 10 + digit_val d) ds
      else None)"

definition parse_unsigned :: "string \<Rightarrow> int option" where
  "parse_unsigned s =
     (case s of [] \<Rightarrow> None
      | c # cs \<Rightarrow> if is_digit c then parse_digits (digit_val c) cs else None)"

definition strip :: "string \<Rightarrow> string" where
  "strip s = rev (dropWhile is_space (rev (dropWhile is_space s)))"

definition py_int_of_string :: "string \<Rightarrow> int option" where
  "py_int_of_string s =
     (if 4300 < length (filter is_digit s) then None
      else case strip s of
        [] \<Rightarrow> None
      | c # cs \<Rightarrow>
          if c = CHR ''-'' then map_option uminus (parse_unsigned cs)
          else if c = CHR ''+'' then parse_unsigned cs
          else parse_unsigned (c # cs))"

subsection \<open>True division of integers\<close>

text \<open>
  \<^verbatim>\<open>a / b\<close> on Python integers is the quotient correctly rounded to an IEEE-754 binary64
  number (round to nearest, ties to even); it raises ZeroDivisionError for \<open>b = 0\<close> and
  OverflowError when the rounded quotient is beyond the binary64 range. A binary64 number
  is a rational, so the rounding is a function on \<open>rat\<close>: the quantum of \<open>x\<close> is
  \<open>2 ^ (e - 52)\<close> for the binary exponent \<open>e\<close> of \<open>x\<close>, not below the subnormal
  exponent \<open>-1022\<close>.
\<close>

definition round_half_even :: "rat \<Rightarrow> int" where
  "round_half_even y =
     (let n = \<lfloor>y\<rfloor>; f = y - of_int n
      in if f < 1 / 2 then n
         else if 1 / 2 < f then n + 1
         else if even n then n else n + 1)"

definition binary_exponent :: "rat \<Rightarrow> int" where
  \<comment> \<open>for \<open>x \<noteq> 0\<close>, the \<open>e\<close> with \<open>2 ^ e \<le> \<bar>x\<bar> < 2 ^ (e + 1)\<close>\<close>
  "binary_exponent x =
     (let (p, q) = quotient_of \<bar>x\<bar>; d = bitlen p - bitlen q
      in if 2 powi d \<le> \<bar>x\<bar> then d else d - 1)"

definition quantum :: "rat \<Rightarrow> rat" where
  "quantum x = 2 powi (max (binary_exponent x) (- 1022) - 52)"

definition round_binary64 :: "rat \<Rightarrow> rat" where
  "round_binary64 x =
     (if x = 0 then 0 else of_int (round_half_even (x / quantum x)) * quantum x)"

definition truediv :: "int \<Rightarrow> int \<Rightarrow> py_error + real" where
  "truediv a b =
     (if b = 0 then Inl ZeroDivisionError
      else let r = round_binary64 (of_int a / of_int b)
           in if 2 ^ 1024 \<le> \<bar>r\<bar> then Inl OverflowError else Inr (of_rat r))"

definition float_add :: "rat \<Rightarrow> rat \<Rightarrow> rat" where
  \<comment> \<open>\<^verbatim>\<open>a + b\<close> on two Python floats of moderate size: the sum, rounded\<close>
  "float_add a b = round_binary64 (a + b)"

definition float_overflows :: "int \<Rightarrow> bool" where
  \<comment> \<open>\<^verbatim>\<open>float(n)\<close> raises OverflowError: the integer rounds to \<open>2 ^ 1024\<close> or beyond\<close>
  "float_overflows n = (2 ^ 1024 \<le> \<bar>round_binary64 (of_int n)\<bar>)"

subsection \<open>binary64 arithmetic on numpy arrays\<close>

text \<open>
  An entry of a numpy array of type \<^verbatim>\<open>float64\<close> is a finite binary64 number, an infinity
  or NaN. Array arithmetic does not raise: the result of an operation on finite numbers is
  rounded, and it is an infinity when the rounded result is \<open>2 ^ 1024\<close> or beyond; the
  difference and the quotient of two infinities are NaN, and so is every operation on NaN.
  The two zeros of binary64 are not told apart: \<open>Finite 0\<close> is the positive zero, which is
  what the difference of two equal finite numbers is.
\<close>

datatype float64 = Finite rat | PosInf | NegInf | NaN

definition overflow64 :: "rat \<Rightarrow> float64" where
  "overflow64 r =
     (if 2 ^ 1024 \<le> r then PosInf else if r \<le> - (2 ^ 1024) then NegInf else Finite r)"

definition f64_round :: "rat \<Rightarrow> float64" where
  \<comment> \<open>the binary64 result of an operation whose exact result is \<open>x\<close>\<close>
  "f64_round x = overflow64 (round_binary64 x)"

fun f64_neg :: "float64 \<Rightarrow> float64" where
  "f64_neg (Finite a) = Finite (- a)"
| "f64_neg PosInf = NegInf"
| "f64_neg NegInf = PosInf"
| "f64_neg NaN = NaN"

fun f64_add :: "float64 \<Rightarrow> float64 \<Rightarrow> float64" where
  "f64_add (Finite a) (Finite b) = f64_round (a + b)"
| "f64_add NaN y = NaN"
| "f64_add x NaN = NaN"
| "f64_add PosInf NegInf = NaN"
| "f64_add NegInf PosInf = NaN"
| "f64_add PosInf y = PosInf"
| "f64_add x PosInf = PosInf"
| "f64_add NegInf y = NegInf"
| "f64_add x NegInf = NegInf"

definition f64_sub :: "float64 \<Rightarrow> float64 \<Rightarrow> float64" where
  "f64_sub x y = f64_add x (f64_neg y)"

fun f64_div :: "float64 \<Rightarrow> float64 \<Rightarrow> float64" where
  "f64_div (Finite a) (Finite b) =
     (if b = 0 then (if a = 0 then NaN else if 0 < a then PosInf else NegInf)
      else f64_round (a / b))"
| "f64_div NaN y = NaN"
| "f64_div x NaN = NaN"
| "f64_div (Finite a) y = Finite 0"
| "f64_div x (Finite b) = (if (x = PosInf) = (0 \<le> b) then PosInf else NegInf)"
| "f64_div x y = NaN"

fun f64_less :: "float64 \<Rightarrow> float64 \<Rightarrow> bool" where
  \<comment> \<open>\<^verbatim>\<open>x < y\<close>; every comparison with NaN is false\<close>
  "f64_less (Finite a) (Finite b) = (a < b)"
| "f64_less NaN y = False"
| "f64_less x NaN = False"
| "f64_less NegInf y = (y \<noteq> NegInf)"
| "f64_less x PosInf = (x \<noteq> PosInf)"
| "f64_less x y = False"

subsection \<open>numpy reductions\<close>

text \<open>
  \<^verbatim>\<open>np.mean\<close>, \<^verbatim>\<open>np.max\<close>, \<^verbatim>\<open>np.min\<close> and \<^verbatim>\<open>np.std\<close> are library functions; they are
  modelled by their mathematical definitions (the population standard deviation for
  \<^verbatim>\<open>np.std\<close>). Their results are exact: the rounding of the library's float
  arithmetic, and a statistic that is infinite because its squares overflow, are not
  modelled. The source calls them on non-empty lists only.
\<close>

definition np_mean :: "'a::field list \<Rightarrow> 'a" where
  "np_mean xs = sum_list xs / of_nat (length xs)"

definition np_max :: "'a::{linorder,zero} list \<Rightarrow> 'a" where
  "np_max xs = (case xs of [] \<Rightarrow> 0 | x # ys \<Rightarrow> foldl max x ys)"

definition np_min :: "'a::{linorder,zero} list \<Rightarrow> 'a" where
  "np_min xs = (case xs of [] \<Rightarrow> 0 | x # ys \<Rightarrow> foldl min x ys)"

definition np_std :: "real list \<Rightarrow> real" where
  "np_std xs = sqrt (np_mean (map (\<lambda>x. (x - np_mean xs)\<^sup>2) xs))"

section \<open>Feature extraction (\<^verbatim>\<open>fog_node/feature_extraction.py\<close>)\<close>

text \<open>
  A retained packet is what \<^verbatim>\<open>add_packets\<close> stores: the parsed timestamp and the layer
  dictionary. A timestamp is a naive \<^verbatim>\<open>datetime\<close> (both packet sources stamp their
  packets with \<^verbatim>\<open>datetime.now().isoformat()\<close>), counted in microseconds; a window
  length is a whole number of seconds. The range limits of \<^verbatim>\<open>datetime\<close> are not
  modelled. The field \<^verbatim>\<open>flow_stats\<close> of the class is never read or written after
  construction and is left out.
\<close>

record packet =
  timestamp :: int
  layers :: pydict

record feature_extractor =
  window_size :: int
  packet_buffer :: "packet list"

type_synonym features = "(string \<times> real) list"

definition dict_update :: "('k \<times> 'v) list \<Rightarrow> ('k \<times> 'v) list \<Rightarrow> ('k \<times> 'v) list" where
  \<comment> \<open>\<^verbatim>\<open>d.update(e)\<close>: a present key keeps its place, a new key goes to the end\<close>
  "dict_update d e = foldl (\<lambda>acc (k, v). AList.update k v acc) d e"

definition get_default_features :: features where
  "get_default_features =
     [(''packet_count'', 0), (''packet_rate'', 0), (''total_bytes'', 0), (''byte_rate'', 0),
      (''tcp_ratio'', 0), (''udp_ratio'', 0), (''icmp_ratio'', 0), (''other_ratio'', 0),
      (''num_flows'', 0), (''avg_flow_duration'', 0), (''max_flow_duration'', 0),
      (''avg_packets_per_flow'', 0), (''max_packets_per_flow'', 0),
      (''unique_sources'', 0), (''unique_destinations'', 0), (''unique_connections'', 0),
      (''connection_diversity'', 0),
      (''avg_packet_size'', 0), (''min_packet_size'', 0), (''max_packet_size'', 0),
      (''std_packet_size'', 0)]"

definition feature_order :: "string list" where
  "feature_order =
     [''packet_count'', ''packet_rate'', ''total_bytes'', ''byte_rate'',
      ''tcp_ratio'', ''udp_ratio'', ''icmp_ratio'', ''other_ratio'',
      ''num_flows'', ''avg_flow_duration'', ''max_flow_duration'',
      ''avg_packets_per_flow'', ''max_packets_per_flow'',
      ''unique_sources'', ''unique_destinations'', ''unique_connections'',
      ''connection_diversity'',
      ''avg_packet_size'', ''min_packet_size'', ''max_packet_size'', ''std_packet_size'']"

subsection \<open>The protocol and byte loop\<close>

definition protocol_of :: "pydict \<Rightarrow> string" where
  "protocol_of ls =
     (if has_key ls ''tcp'' then ''tcp''
      else if has_key ls ''udp'' then ''udp''
      else if has_key ls ''icmp'' then ''icmp''
      else ''other'')"

definition count_of :: "(string \<times> nat) list \<Rightarrow> string \<Rightarrow> nat" where
  \<comment> \<open>reading a \<^verbatim>\<open>defaultdict(int)\<close>: a missing key reads as 0\<close>
  "count_of pc k = (case map_of pc k of None \<Rightarrow> 0 | Some n \<Rightarrow> n)"

definition increment :: "(string \<times> nat) list \<Rightarrow> string \<Rightarrow> (string \<times> nat) list" where
  \<comment> \<open>\<^verbatim>\<open>protocol_counts[k] += 1\<close>\<close>
  "increment pc k = AList.update k (count_of pc k + 1) pc"

definition ip_len_parsed :: "pydict \<Rightarrow> int option" where
  \<comment> \<open>The length a packet contributes. For a list the source only rebinds \<^verbatim>\<open>ip_len\<close>
      to its first element (or 0); the \<^verbatim>\<open>elif\<close> that adds the value is not entered.
      The default \<^verbatim>\<open>{}\<close> of an absent field is neither a list nor an int or str.
      \<^verbatim>\<open>bool\<close> is a subclass of \<^verbatim>\<open>int\<close>.\<close>
  "ip_len_parsed ls =
     (case map_of ls ''ip'' of
        Some (PDict ip_layer) \<Rightarrow>
          (case map_of ip_layer ''ip_len'' of
             Some (PList xs) \<Rightarrow> None
           | Some (PInt i) \<Rightarrow> Some i
           | Some (PBool b) \<Rightarrow> Some (if b then 1 else 0)
           | Some (PStr s) \<Rightarrow> py_int_of_string s
           | _ \<Rightarrow> None)
      | _ \<Rightarrow> None)"

fun count_loop :: "(string \<times> nat) list \<times> int \<Rightarrow> packet list \<Rightarrow> (string \<times> nat) list \<times> int" where
  \<comment> \<open>the loop of lines 82 to 106 over \<^verbatim>\<open>protocol_counts\<close> and \<^verbatim>\<open>total_bytes\<close>\<close>
  "count_loop (pc, total_bytes) [] = (pc, total_bytes)"
| "count_loop (pc, total_bytes) (p # ps) =
     count_loop
       (increment pc (protocol_of (layers p)),
        (case ip_len_parsed (layers p) of None \<Rightarrow> total_bytes | Some n \<Rightarrow> total_bytes + n))
       ps"

subsection \<open>Flow features\<close>

definition get_field :: "pydict \<Rightarrow> string \<Rightarrow> py_error + pyval" where
  \<comment> \<open>\<^verbatim>\<open>l.get(k, [''])[0] if isinstance(l.get(k), list) else l.get(k, '')\<close>:
      indexing an empty list raises IndexError\<close>
  "get_field l k =
     (case map_of l k of
        Some (PList xs) \<Rightarrow> (case xs of [] \<Rightarrow> Inl IndexError | x # _ \<Rightarrow> Inr x)
      | Some v \<Rightarrow> Inr v
      | None \<Rightarrow> Inr (PStr ''''))"

definition address_pair :: "pydict \<Rightarrow> (py_error + pyval \<times> pyval) option" where
  \<comment> \<open>\<^verbatim>\<open>src_ip\<close> and \<^verbatim>\<open>dst_ip\<close> of a packet; \<open>None\<close> when there is no \<^verbatim>\<open>ip\<close> layer that
      is a dictionary, so that the two assignments are not reached\<close>
  "address_pair ls =
     (case map_of ls ''ip'' of
        Some (PDict ip_layer) \<Rightarrow>
          Some (bind_err (get_field ip_layer ''ip_src'') (\<lambda>src_ip.
                bind_err (get_field ip_layer ''ip_dst'') (\<lambda>dst_ip.
                Inr (src_ip, dst_ip))))
      | _ \<Rightarrow> None)"

definition port_pair :: "pydict \<Rightarrow> py_error + pyval \<times> pyval" where
  "port_pair ls =
     (if has_key ls ''tcp'' then
        (case map_of ls ''tcp'' of
           Some (PDict tcp_layer) \<Rightarrow>
             bind_err (get_field tcp_layer ''tcp_srcport'') (\<lambda>src_port.
             bind_err (get_field tcp_layer ''tcp_dstport'') (\<lambda>dst_port.
             Inr (src_port, dst_port)))
         | _ \<Rightarrow> Inr (PNone, PNone))
      else if has_key ls ''udp'' then
        (case map_of ls ''udp'' of
           Some (PDict udp_layer) \<Rightarrow>
             bind_err (get_field udp_layer ''udp_srcport'') (\<lambda>src_port.
             bind_err (get_field udp_layer ''udp_dstport'') (\<lambda>dst_port.
             Inr (src_port, dst_port)))
         | _ \<Rightarrow> Inr (PNone, PNone))
      else Inr (PNone, PNone))"

type_synonym flow_key = "pyval \<times> pyval \<times> pyval \<times> pyval"

record flow_data =
  packets :: "packet list"
  start_time :: "int option"
  end_time :: "int option"

definition flow_add :: "(flow_key \<times> flow_data) list \<Rightarrow> flow_key \<Rightarrow> packet \<Rightarrow> (flow_key \<times> flow_data) list" where
  \<comment> \<open>lines 175 to 178 on the \<^verbatim>\<open>defaultdict\<close> of flows\<close>
  "flow_add flows k p =
     (let fd = (case map_of flows k of
                  None \<Rightarrow> \<lparr>packets = [], start_time = None, end_time = None\<rparr>
                | Some d \<Rightarrow> d);
          fd1 = fd\<lparr>packets := packets fd @ [p]\<rparr>;
          fd2 = (if start_time fd1 = None then fd1\<lparr>start_time := Some (timestamp p)\<rparr> else fd1)
      in AList.update k (fd2\<lparr>end_time := Some (timestamp p)\<rparr>) flows)"

fun flow_loop :: "(flow_key \<times> flow_data) list \<Rightarrow> packet list \<Rightarrow> py_error + (flow_key \<times> flow_data) list" where
  "flow_loop flows [] = Inr flows"
| "flow_loop flows (p # ps) =
     bind_err (case address_pair (layers p) of None \<Rightarrow> Inr (PNone, PNone) | Some r \<Rightarrow> r)
       (\<lambda>(src_ip, dst_ip).
     bind_err (port_pair (layers p)) (\<lambda>(src_port, dst_port).
       if truthy src_ip \<and> truthy dst_ip then
         if hashable src_ip \<and> hashable dst_ip \<and> hashable src_port \<and> hashable dst_port
         then flow_loop
                (flow_add flows (hash_key src_ip, hash_key dst_ip, hash_key src_port, hash_key dst_port) p)
                ps
         else Inl TypeError
       else flow_loop flows ps))"

definition total_seconds :: "int \<Rightarrow> real" where
  \<comment> \<open>\<^verbatim>\<open>timedelta.total_seconds()\<close>: the microseconds divided by \<open>10 ^ 6\<close>, rounded\<close>
  "total_seconds d = of_rat (round_binary64 (of_int d / 1000000))"

definition extract_flow_features :: "packet list \<Rightarrow> py_error + features" where
  "extract_flow_features ps =
     bind_err (flow_loop [] ps) (\<lambda>flows.
       let counted = filter (\<lambda>(k, fd). start_time fd \<noteq> None \<and> end_time fd \<noteq> None) flows;
           flow_durations =
             map (\<lambda>(k, fd). total_seconds (the (end_time fd) - the (start_time fd))) counted;
           flow_packet_counts = map (\<lambda>(k, fd). real (length (packets fd))) counted
       in Inr [(''num_flows'', real (length flows)),
               (''avg_flow_duration'', if flow_durations \<noteq> [] then np_mean flow_durations else 0),
               (''max_flow_duration'', if flow_durations \<noteq> [] then np_max flow_durations else 0),
               (''avg_packets_per_flow'',
                  if flow_packet_counts \<noteq> [] then np_mean flow_packet_counts else 0),
               (''max_packets_per_flow'',
                  if flow_packet_counts \<noteq> [] then np_max flow_packet_counts else 0)])"

subsection \<open>Connection features\<close>

definition set_add :: "'a list \<Rightarrow> pyval \<Rightarrow> (pyval \<Rightarrow> 'a) \<Rightarrow> py_error + 'a list" where
  \<comment> \<open>\<^verbatim>\<open>s.add(v)\<close> on a set kept as a duplicate-free list; an unhashable member raises\<close>
  "set_add s v key = (if hashable v then Inr (List.insert (key v) s) else Inl TypeError)"

fun connection_loop ::
  "pyval list \<times> pyval list \<times> (pyval \<times> pyval) list \<Rightarrow> packet list
    \<Rightarrow> py_error + pyval list \<times> pyval list \<times> (pyval \<times> pyval) list" where
  "connection_loop acc [] = Inr acc"
| "connection_loop (srcs, dsts, conns) (p # ps) =
     (case address_pair (layers p) of
        None \<Rightarrow> connection_loop (srcs, dsts, conns) ps
      | Some r \<Rightarrow>
          bind_err r (\<lambda>(src_ip, dst_ip).
          bind_err (if truthy src_ip then set_add srcs src_ip hash_key else Inr srcs) (\<lambda>srcs1.
          bind_err (if truthy dst_ip then set_add dsts dst_ip hash_key else Inr dsts) (\<lambda>dsts1.
            connection_loop
              (srcs1, dsts1,
               if truthy src_ip \<and> truthy dst_ip
               then List.insert (hash_key src_ip, hash_key dst_ip) conns else conns)
              ps))))"

definition extract_connection_features :: "packet list \<Rightarrow> py_error + features" where
  "extract_connection_features ps =
     bind_err (connection_loop ([], [], []) ps) (\<lambda>(srcs, dsts, conns).
     bind_err (truediv (int (length conns)) (max (int (length srcs) * int (length dsts)) 1))
       (\<lambda>diversity.
       Inr [(''unique_sources'', real (length srcs)),
            (''unique_destinations'', real (length dsts)),
            (''unique_connections'', real (length conns)),
            (''connection_diversity'', diversity)]))"

subsection \<open>Packet size features\<close>

definition packet_sizes :: "packet list \<Rightarrow> int list" where
  "packet_sizes ps = List.map_filter (\<lambda>p. ip_len_parsed (layers p)) ps"

definition extract_size_features :: "packet list \<Rightarrow> py_error + features" where
  \<comment> \<open>numpy holds a list with an integer beyond 64 bits as an array of Python integers;
      the reductions then convert to \<^verbatim>\<open>float\<close>, which raises OverflowError for an integer
      too large for a binary64 number\<close>
  "extract_size_features ps =
     (let sizes = packet_sizes ps
      in if sizes \<noteq> [] then
           if list_ex float_overflows sizes then Inl OverflowError
           else
             Inr [(''avg_packet_size'', np_mean (map real_of_int sizes)),
                  (''min_packet_size'', np_min (map real_of_int sizes)),
                  (''max_packet_size'', np_max (map real_of_int sizes)),
                  (''std_packet_size'', np_std (map real_of_int sizes))]
         else
           Inr [(''avg_packet_size'', 0), (''min_packet_size'', 0),
                (''max_packet_size'', 0), (''std_packet_size'', 0)])"

subsection \<open>\<^verbatim>\<open>extract_features\<close> and \<^verbatim>\<open>get_feature_vector\<close>\<close>

definition window_packets :: "feature_extractor \<Rightarrow> int \<Rightarrow> packet list" where
  \<comment> \<open>the retained packets with \<^verbatim>\<open>timestamp >= now - timedelta(seconds=window_size)\<close>\<close>
  "window_packets fx now =
     filter (\<lambda>p. now - window_size fx * 1000000 \<le> timestamp p) (packet_buffer fx)"

definition protocol_ratios :: "(string \<times> nat) list \<Rightarrow> py_error + features" where
  \<comment> \<open>lines 112 to 122\<close>
  "protocol_ratios protocol_counts =
     (let total_protocol = int (sum_list (map snd protocol_counts))
      in if 0 < total_protocol then
           bind_err (truediv (int (count_of protocol_counts ''tcp'')) total_protocol) (\<lambda>t.
           bind_err (truediv (int (count_of protocol_counts ''udp'')) total_protocol) (\<lambda>u.
           bind_err (truediv (int (count_of protocol_counts ''icmp'')) total_protocol) (\<lambda>i.
           bind_err (truediv (int (count_of protocol_counts ''other'')) total_protocol) (\<lambda>oth.
           Inr [(''tcp_ratio'', t), (''udp_ratio'', u), (''icmp_ratio'', i),
                (''other_ratio'', oth)]))))
         else Inr [(''tcp_ratio'', 0), (''udp_ratio'', 0), (''icmp_ratio'', 0),
                   (''other_ratio'', 0)])"

definition extract_features :: "feature_extractor \<Rightarrow> int \<Rightarrow> py_error + features" where
  \<comment> \<open>\<open>now\<close> is the value \<^verbatim>\<open>datetime.now()\<close> returns during the call\<close>
  "extract_features fx now =
     (if packet_buffer fx = [] then Inr get_default_features
      else let wp = window_packets fx now in
      if wp = [] then Inr get_default_features
      else
        bind_err (truediv (int (length wp)) (window_size fx)) (\<lambda>packet_rate.
        let (protocol_counts, total_bytes) = count_loop ([], 0) wp in
        bind_err (if 0 < window_size fx then truediv total_bytes (window_size fx) else Inr 0)
          (\<lambda>byte_rate.
        bind_err (protocol_ratios protocol_counts) (\<lambda>ratios.
        bind_err (extract_flow_features wp) (\<lambda>flow_features.
        bind_err (extract_connection_features wp) (\<lambda>connection_features.
        bind_err (extract_size_features wp) (\<lambda>size_features.
          Inr (dict_update
                (dict_update
                  (dict_update
                    ([(''packet_count'', real (length wp)), (''packet_rate'', packet_rate),
                      (''total_bytes'', real_of_int total_bytes), (''byte_rate'', byte_rate)]
                     @ ratios)
                    flow_features)
                  connection_features)
                size_features))))))))"

definition feature_get :: "features \<Rightarrow> string \<Rightarrow> real" where
  \<comment> \<open>\<^verbatim>\<open>features.get(key, 0)\<close>\<close>
  "feature_get f k = (case map_of f k of None \<Rightarrow> 0 | Some v \<Rightarrow> v)"

definition get_feature_vector :: "feature_extractor \<Rightarrow> int \<Rightarrow> py_error + real list" where
  "get_feature_vector fx now =
     bind_err (extract_features fx now) (\<lambda>f. Inr (map (feature_get f) feature_order))"

subsection \<open>A history for concrete evaluations\<close>

definition retained :: "pydict list \<Rightarrow> feature_extractor" where
  \<comment> \<open>an extractor with the agent's 60 second window whose retained records carry the
      given layer dictionaries and are all stamped at second 100; at second 120, that is
      \<open>now = 120000000\<close>, every record is inside the window\<close>
  "retained lss =
     \<lparr>window_size = 60,
      packet_buffer = map (\<lambda>ls. \<lparr>timestamp = 100000000, layers = ls\<rparr>) lss\<rparr>"

definition mixed_window :: "pydict list" where
  \<comment> \<open>six records: one UDP datagram, four ICMP messages and one ARP frame\<close>
  "mixed_window =
     [[(''udp'', PDict [])], [(''icmp'', PDict [])], [(''icmp'', PDict [])],
      [(''icmp'', PDict [])], [(''icmp'', PDict [])], [(''arp'', PDict [])]]"

section \<open>The capture queue (\<^verbatim>\<open>fog_node/traffic_capture.py\<close>)\<close>

text \<open>
  \<^verbatim>\<open>queue.Queue(maxsize=buffer_size)\<close> is a FIFO queue; a \<^verbatim>\<open>maxsize\<close> of zero or less
  makes it unbounded. The operations are taken one at a time, that is without a consumer
  running between the steps of one push.
\<close>

record 'a queue =
  maxsize :: int
  items :: "'a list"

definition put_nowait :: "'a queue \<Rightarrow> 'a \<Rightarrow> py_error + 'a queue" where
  "put_nowait q x =
     (if 0 < maxsize q \<and> maxsize q \<le> int (length (items q)) then Inl QueueFull
      else Inr (q\<lparr>items := items q @ [x]\<rparr>))"

definition get_nowait :: "'a queue \<Rightarrow> py_error + 'a \<times> 'a queue" where
  "get_nowait q =
     (case items q of [] \<Rightarrow> Inl QueueEmpty | x # xs \<Rightarrow> Inr (x, q\<lparr>items := xs\<rparr>))"

definition push :: "'a queue \<Rightarrow> 'a \<Rightarrow> py_error + 'a queue" where
  \<comment> \<open>Lines 127 to 135 of \<^verbatim>\<open>_process_packet\<close> and 220 to 227 of \<^verbatim>\<open>_simulate_capture\<close>:
      \<^verbatim>\<open>put_nowait\<close>; on \<^verbatim>\<open>Full\<close>, \<^verbatim>\<open>get_nowait\<close> and \<^verbatim>\<open>put_nowait\<close> again, where
      only \<^verbatim>\<open>Empty\<close> is caught (and the record is then dropped).\<close>
  "push q x =
     (case put_nowait q x of
        Inr q1 \<Rightarrow> Inr q1
      | Inl QueueFull \<Rightarrow>
          (case get_nowait q of
             Inr (oldest, q1) \<Rightarrow> put_nowait q1 x
           | Inl QueueEmpty \<Rightarrow> Inr q
           | Inl e \<Rightarrow> Inl e)
      | Inl e \<Rightarrow> Inl e)"

fun push_all :: "'a queue \<Rightarrow> 'a list \<Rightarrow> py_error + 'a queue" where
  \<comment> \<open>a sequence of pushes, each on the queue the previous one left\<close>
  "push_all q [] = Inr q"
| "push_all q (x # xs) = bind_err (push q x) (\<lambda>q1. push_all q1 xs)"

definition get_packets :: "'a queue \<Rightarrow> nat \<Rightarrow> 'a list \<times> 'a queue" where
  \<comment> \<open>\<^verbatim>\<open>get_packets(timeout, max_packets)\<close> when the timeout does not cut the loop short:
      the oldest \<^verbatim>\<open>max_packets\<close> records, in arrival order\<close>
  "get_packets q max_packets =
     (take max_packets (items q), q\<lparr>items := drop max_packets (items q)\<rparr>)"

section \<open>The anomaly detector (\<^verbatim>\<open>fog_node/anomaly_detection.py\<close>)\<close>

text \<open>
  The fitted scaler and the fitted model are library objects (scikit-learn, Keras). They
  are fields of the detector: the scaler maps a row to its scaled row, the isolation
  forest gives a row its label (1 or -1) and its \<^verbatim>\<open>score_samples\<close> value, and the
  network maps a batch to its reconstruction, or to \<open>None\<close> when the call raises. A batch
  is a list of rows. What these objects return are arrays of finite binary64 numbers,
  which are rationals. The reconstruction error of a row is computed exactly and is a
  finite number: the rounding of its operations and an overflow of its squares are not
  modelled. The normalisation of the scores (line 128) is binary64 array arithmetic. A
  library call that raises on a malformed batch is outside the model, except inside the
  \<^verbatim>\<open>try\<close> blocks of the source.
\<close>

record detector =
  model_type :: string
  is_trained :: bool
  has_model :: bool
  scaler :: "real list \<Rightarrow> rat list"
  forest_label :: "rat list \<Rightarrow> real"
  forest_score :: "rat list \<Rightarrow> rat"
  reconstruct :: "rat list list \<Rightarrow> rat list list option"

definition np_percentile_90 :: "rat list \<Rightarrow> rat" where
  \<comment> \<open>\<^verbatim>\<open>np.percentile(xs, 90)\<close> with linear interpolation, for a non-empty list\<close>
  "np_percentile_90 xs =
     (let s = sort xs; h = 9 * of_nat (length xs - 1) / 10; lo = nat \<lfloor>h\<rfloor>;
          hi = min (lo + 1) (length xs - 1)
      in s ! lo + (h - of_nat lo) * (s ! hi - s ! lo))"

definition mse_rows :: "detector \<Rightarrow> rat list list \<Rightarrow> rat list option" where
  \<comment> \<open>\<^verbatim>\<open>np.mean((X - model.predict(X)) ** 2, axis=1)\<close>; \<open>None\<close> when the prediction or the
      subtraction of a differently shaped array raises\<close>
  "mse_rows d X =
     (case reconstruct d X of
        None \<Rightarrow> None
      | Some R \<Rightarrow>
          if map length R = map length X
          then Some (map2 (\<lambda>x r. np_mean (map2 (\<lambda>a b. (a - b)\<^sup>2) x r)) X R)
          else None)"

definition predict_autoencoder :: "detector \<Rightarrow> rat list list \<Rightarrow> real list" where
  "predict_autoencoder d X =
     (if \<not> has_model d then replicate (length X) 1
      else case mse_rows d X of
             None \<Rightarrow> replicate (length X) 1
           | Some mse \<Rightarrow>
               if mse = [] then replicate (length X) 1
               else map (\<lambda>m. if np_percentile_90 mse < m then - 1 else 1) mse)"

definition predict_lstm :: "detector \<Rightarrow> rat list list \<Rightarrow> real list" where
  \<comment> \<open>the same computation on the batch reshaped to one time step per row\<close>
  "predict_lstm d X = predict_autoencoder d X"

definition score_autoencoder :: "detector \<Rightarrow> rat list list \<Rightarrow> rat list" where
  "score_autoencoder d X =
     (if \<not> has_model d then replicate (length X) 0
      else case mse_rows d X of None \<Rightarrow> replicate (length X) 0 | Some mse \<Rightarrow> mse)"

definition score_lstm :: "detector \<Rightarrow> rat list list \<Rightarrow> rat list" where
  "score_lstm d X = score_autoencoder d X"

definition predict :: "detector \<Rightarrow> real list list \<Rightarrow> py_error + real list" where
  "predict d X =
     (if \<not> is_trained d then Inr (replicate (length X) 1)
      else let X_scaled = map (scaler d) X
           in if model_type d = ''isolation_forest'' then Inr (map (forest_label d) X_scaled)
              else if model_type d = ''autoencoder'' then Inr (predict_autoencoder d X_scaled)
              else if model_type d = ''lstm'' then Inr (predict_lstm d X_scaled)
              else Inr (replicate (length X) 1))"

definition raw_scores :: "detector \<Rightarrow> real list list \<Rightarrow> rat list" where
  \<comment> \<open>lines 116 to 125: the scores before normalisation\<close>
  "raw_scores d X =
     (let X_scaled = map (scaler d) X
      in if model_type d = ''isolation_forest'' then map (\<lambda>x. - forest_score d x) X_scaled
         else if model_type d = ''autoencoder'' then score_autoencoder d X_scaled
         else if model_type d = ''lstm'' then score_lstm d X_scaled
         else replicate (length X) 0)"

definition normalize_scores :: "rat list \<Rightarrow> py_error + float64 list" where
  \<comment> \<open>line 128, \<^verbatim>\<open>(scores - scores.min()) / (scores.max() - scores.min() + 1e-8)\<close>, on an
      array of finite scores; \<^verbatim>\<open>scores.min()\<close> of an empty array raises ValueError. The
      literal \<^verbatim>\<open>1e-8\<close> is the binary64 number nearest to \<open>1 / 10 ^ 8\<close>.\<close>
  "normalize_scores scores =
     (if scores = [] then Inl ValueError
      else let lo = Finite (np_min scores); hi = Finite (np_max scores);
               spread = f64_add (f64_sub hi lo) (Finite (round_binary64 (1 / 10 ^ 8)))
           in Inr (map (\<lambda>s. f64_div (f64_sub (Finite s) lo) spread) scores))"

definition predict_proba :: "detector \<Rightarrow> real list list \<Rightarrow> py_error + float64 list" where
  "predict_proba d X =
     (if \<not> is_trained d then Inr (replicate (length X) (Finite 0))
      else normalize_scores (raw_scores d X))"

section \<open>Ingest (\<^verbatim>\<open>add_packets\<close>)\<close>

text \<open>
  A captured packet is a dictionary that may hold a \<^verbatim>\<open>timestamp\<close> and a \<^verbatim>\<open>layers\<close>
  dictionary. \<^verbatim>\<open>datetime.fromisoformat\<close> is a library function and a parameter here: it
  maps a string to a timestamp, or to \<open>None\<close> when it raises ValueError.
\<close>

record raw_packet =
  raw_timestamp :: "pyval option"
  raw_layers :: "pydict option"

type_synonym iso_parser = "string \<Rightarrow> int option"

definition parse_timestamp :: "iso_parser \<Rightarrow> raw_packet \<Rightarrow> py_error + int" where
  \<comment> \<open>\<^verbatim>\<open>datetime.fromisoformat(packet['timestamp'])\<close>\<close>
  "parse_timestamp fromisoformat pkt =
     (case raw_timestamp pkt of
        None \<Rightarrow> Inl KeyError
      | Some (PStr s) \<Rightarrow> (case fromisoformat s of None \<Rightarrow> Inl ValueError | Some t \<Rightarrow> Inr t)
      | Some v \<Rightarrow> Inl TypeError)"

definition deque_append :: "'a list \<Rightarrow> 'a \<Rightarrow> 'a list" where
  \<comment> \<open>\<^verbatim>\<open>append\<close> on a \<^verbatim>\<open>deque(maxlen=10000)\<close>\<close>
  "deque_append buf x = drop (length (buf @ [x]) - 10000) (buf @ [x])"

fun add_packets ::
  "iso_parser \<Rightarrow> feature_extractor \<Rightarrow> raw_packet list \<Rightarrow> py_error option \<times> feature_extractor" where
  \<comment> \<open>the exception that ended the call, if any, and the extractor as the call left it\<close>
  "add_packets fromisoformat fx [] = (None, fx)"
| "add_packets fromisoformat fx (pkt # pkts) =
     (case parse_timestamp fromisoformat pkt of
        Inl e \<Rightarrow> (Some e, fx)
      | Inr t \<Rightarrow>
          add_packets fromisoformat
            (fx\<lparr>packet_buffer :=
                  deque_append (packet_buffer fx)
                    \<lparr>timestamp = t,
                     layers = (case raw_layers pkt of None \<Rightarrow> [] | Some ls \<Rightarrow> ls)\<rparr>\<rparr>)
            pkts)"

section \<open>The agent (\<^verbatim>\<open>fog_node/fog_agent.py\<close>)\<close>

text \<open>
  What the loggers emit is kept as a list of entries in the agent's state, in the order of
  emission. The two JSON-lines files are lists of records. The threads that \<^verbatim>\<open>start\<close>
  launches are counted; one pass of the analysis loop is a function of the state, the
  drained packets and the environment of that pass (clock readings, and whether the
  serialisation and the file writes succeed).
\<close>

datatype log_entry =
  AgentAlreadyRunning
  | AgentStarted string
  | AgentStopped string
  | CaptureAlreadyRunning
  | CaptureStarted string
  | CaptureStopped
  | SimulatedCaptureStarted string
  | SimulatedCaptureStopped
  | DetectionLine bool float64 real real
  | AnomalyDetected float64
  | AnomalyFeatures features
  | WriteError
  | LoopError py_error

datatype process_state = ProcessRunning | ProcessTerminated | ProcessKilled

record capture =
  simulated :: bool
  interface :: string
  is_capturing :: bool
  capture_threads :: nat
  tshark_process :: "process_state option"
  capture_queue :: "raw_packet queue"

definition start_capture :: "capture \<Rightarrow> capture \<times> log_entry list" where
  "start_capture c =
     (if is_capturing c then (c, if simulated c then [] else [CaptureAlreadyRunning])
      else (c\<lparr>is_capturing := True, capture_threads := capture_threads c + 1\<rparr>,
            [if simulated c then SimulatedCaptureStarted (interface c)
             else CaptureStarted (interface c)]))"

definition stop_process :: "bool \<Rightarrow> process_state \<Rightarrow> process_state" where
  \<comment> \<open>\<^verbatim>\<open>terminate()\<close>, \<^verbatim>\<open>wait(timeout=5)\<close> and, when the wait times out, \<^verbatim>\<open>kill()\<close>;
      a process that has ended is left as it is\<close>
  "stop_process exits_in_time p =
     (case p of
        ProcessRunning \<Rightarrow> if exits_in_time then ProcessTerminated else ProcessKilled
      | ended \<Rightarrow> ended)"

definition stop_capture :: "bool \<Rightarrow> capture \<Rightarrow> capture \<times> log_entry list" where
  "stop_capture exits_in_time c =
     (if simulated c then (c\<lparr>is_capturing := False\<rparr>, [SimulatedCaptureStopped])
      else (c\<lparr>is_capturing := False,
               tshark_process := map_option (stop_process exits_in_time) (tshark_process c)\<rparr>,
            [CaptureStopped]))"

datatype severity = MEDIUM | HIGH

record detection_record =
  det_timestamp :: int
  det_node_id :: string
  det_is_anomaly :: bool
  det_anomaly_score :: float64
  det_features :: features
  det_packet_count :: real
  det_packet_rate :: real
  det_byte_rate :: real

record alert_record =
  alert_timestamp :: int
  alert_node_id :: string
  alert_severity :: severity
  alert_anomaly_score :: float64
  alert_features :: features
  alert_action :: string

record agent =
  node_id :: string
  capture :: capture
  feature_extractor :: feature_extractor
  anomaly_detector :: detector
  is_running :: bool
  analysis_threads :: nat
  detection_count :: nat
  normal_count :: nat
  logged :: "log_entry list"
  detections :: "detection_record list"
  alerts :: "alert_record list"

definition start :: "agent \<Rightarrow> agent" where
  "start a =
     (if is_running a then a\<lparr>logged := logged a @ [AgentAlreadyRunning]\<rparr>
      else let (c, entries) = start_capture (capture a)
           in a\<lparr>is_running := True, capture := c,
                analysis_threads := analysis_threads a + 1,
                logged := logged a @ entries @ [AgentStarted (node_id a)]\<rparr>)"

definition stop :: "bool \<Rightarrow> agent \<Rightarrow> agent" where
  "stop exits_in_time a =
     (let (c, entries) = stop_capture exits_in_time (capture a)
      in a\<lparr>is_running := False, capture := c,
           logged := logged a @ entries @ [AgentStopped (node_id a)]\<rparr>)"

record environment =
  now_extract :: int
  now_vector :: int
  now_detection :: int
  now_alert :: int
  json_ok :: bool
  detection_write_ok :: bool
  alert_write_ok :: bool

definition log_detection :: "environment \<Rightarrow> agent \<Rightarrow> features \<Rightarrow> bool \<Rightarrow> float64 \<Rightarrow> agent" where
  \<comment> \<open>\<^verbatim>\<open>_log_detection\<close>: a failed write is caught and logged\<close>
  "log_detection env a f is_anomaly anomaly_score =
     (let entry = \<lparr>det_timestamp = now_detection env, det_node_id = node_id a,
                   det_is_anomaly = is_anomaly, det_anomaly_score = anomaly_score,
                   det_features = f, det_packet_count = feature_get f ''packet_count'',
                   det_packet_rate = feature_get f ''packet_rate'',
                   det_byte_rate = feature_get f ''byte_rate''\<rparr>;
          a1 = (if json_ok env \<and> detection_write_ok env
                then a\<lparr>detections := detections a @ [entry]\<rparr>
                else a\<lparr>logged := logged a @ [WriteError]\<rparr>)
      in a1\<lparr>logged := logged a1 @
              [DetectionLine is_anomaly anomaly_score (feature_get f ''packet_count'')
                 (feature_get f ''packet_rate'')]\<rparr>)"

definition handle_anomaly :: "environment \<Rightarrow> agent \<Rightarrow> features \<Rightarrow> float64 \<Rightarrow> py_error option \<times> agent" where
  \<comment> \<open>\<^verbatim>\<open>_handle_anomaly\<close>: \<^verbatim>\<open>json.dumps(features)\<close> in the second warning is outside any
      \<^verbatim>\<open>try\<close>; the write of the alert is inside one. The literal \<^verbatim>\<open>0.8\<close> is the binary64
      number nearest to \<open>8 / 10\<close>.\<close>
  "handle_anomaly env a f anomaly_score =
     (let a1 = a\<lparr>logged := logged a @ [AnomalyDetected anomaly_score]\<rparr>
      in if \<not> json_ok env then (Some TypeError, a1)
         else let a2 = a1\<lparr>logged := logged a1 @ [AnomalyFeatures f]\<rparr>;
                  alert = \<lparr>alert_timestamp = now_alert env, alert_node_id = node_id a,
                           alert_severity =
                             (if f64_less (Finite (round_binary64 (8 / 10))) anomaly_score
                              then HIGH else MEDIUM),
                           alert_anomaly_score = anomaly_score, alert_features = f,
                           alert_action = ''logged''\<rparr>
              in (None, if alert_write_ok env then a2\<lparr>alerts := alerts a2 @ [alert]\<rparr>
                        else a2\<lparr>logged := logged a2 @ [WriteError]\<rparr>))"

definition loop_error :: "agent \<Rightarrow> py_error \<Rightarrow> agent" where
  \<comment> \<open>the \<^verbatim>\<open>except Exception\<close> of the loop\<close>
  "loop_error a e = a\<lparr>logged := logged a @ [LoopError e]\<rparr>"

definition analysis_iteration :: "iso_parser \<Rightarrow> environment \<Rightarrow> agent \<Rightarrow> raw_packet list \<Rightarrow> agent" where
  \<comment> \<open>the body of the \<^verbatim>\<open>while\<close> loop for the packets \<^verbatim>\<open>get_packets\<close> returned; the
      literal \<^verbatim>\<open>0.7\<close> is the binary64 number nearest to \<open>7 / 10\<close>\<close>
  "analysis_iteration fromisoformat env a pkts =
     (if pkts = [] then a
      else case add_packets fromisoformat (feature_extractor a) pkts of
        (Some e, fx) \<Rightarrow> loop_error (a\<lparr>feature_extractor := fx\<rparr>) e
      | (None, fx) \<Rightarrow>
          let a1 = a\<lparr>feature_extractor := fx\<rparr> in
          case extract_features fx (now_extract env) of
            Inl e \<Rightarrow> loop_error a1 e
          | Inr f \<Rightarrow>
          case get_feature_vector fx (now_vector env) of
            Inl e \<Rightarrow> loop_error a1 e
          | Inr feature_vector \<Rightarrow>
              if feature_vector = [] then a1
              else
                case predict (anomaly_detector a1) [feature_vector] of
                  Inl e \<Rightarrow> loop_error a1 e
                | Inr prediction \<Rightarrow>
                case predict_proba (anomaly_detector a1) [feature_vector] of
                  Inl e \<Rightarrow> loop_error a1 e
                | Inr score \<Rightarrow>
                    if prediction = [] \<or> score = [] then loop_error a1 IndexError
                    else
                      let is_anomaly = (hd prediction = - 1);
                          anomaly_score = hd score;
                          a2 = log_detection env a1 f is_anomaly anomaly_score
                      in if is_anomaly \<and> f64_less (Finite (round_binary64 (7 / 10))) anomaly_score then
                           (case handle_anomaly env a2 f anomaly_score of
                              (Some e, a3) \<Rightarrow> loop_error a3 e
                            | (None, a3) \<Rightarrow> a3\<lparr>detection_count := detection_count a3 + 1\<rparr>)
                         else a2\<lparr>normal_count := normal_count a2 + 1\<rparr>)"

fun analysis_loop :: "iso_parser \<Rightarrow> agent \<Rightarrow> (environment \<times> raw_packet list) list \<Rightarrow> agent" where
  \<comment> \<open>successive passes while \<^verbatim>\<open>is_running\<close> holds, one per drained batch\<close>
  "analysis_loop fromisoformat a [] = a"
| "analysis_loop fromisoformat a ((env, pkts) # rest) =
     (if is_running a
      then analysis_loop fromisoformat (analysis_iteration fromisoformat env a pkts) rest
      else a)"

section \<open>Concrete states for evaluations\<close>

definition demo_detector :: "bool \<Rightarrow> (rat list \<Rightarrow> rat) \<Rightarrow> detector" where
  \<comment> \<open>an isolation-forest detector with the given \<^verbatim>\<open>score_samples\<close>, whose scaler takes
      the integer part of every entry\<close>
  "demo_detector trained score =
     \<lparr>model_type = ''isolation_forest'', is_trained = trained, has_model = trained,
      scaler = map (\<lambda>v. of_int \<lfloor>v\<rfloor>), forest_label = (\<lambda>row. if score row < - 1 / 2 then - 1 else 1),
      forest_score = score, reconstruct = (\<lambda>X. None)\<rparr>"

definition demo_agent :: agent where
  \<comment> \<open>the agent as its constructor leaves it, with the simulated capture\<close>
  "demo_agent =
     \<lparr>node_id = ''fog1'',
      capture = \<lparr>simulated = True, interface = ''any'', is_capturing = False,
                 capture_threads = 0, tshark_process = None,
                 capture_queue = \<lparr>maxsize = 1000, items = []\<rparr>\<rparr>,
      feature_extractor = \<lparr>window_size = 60, packet_buffer = []\<rparr>,
      anomaly_detector = demo_detector True (\<lambda>row. - 1),
      is_running = False, analysis_threads = 0, detection_count = 0, normal_count = 0,
      logged = [], detections = [], alerts = []\<rparr>"

section \<open>Notions used to state the claims\<close>

definition class_count :: "string \<Rightarrow> packet list \<Rightarrow> nat" where
  \<comment> \<open>the number of records of a window that the protocol loop puts in class \<open>k\<close>\<close>
  "class_count k wp = length (filter (\<lambda>p. protocol_of (layers p) = k) wp)"

definition ratio_sum :: "features \<Rightarrow> real" where
  \<comment> \<open>the sum of the four protocol ratios of a feature map, as a real number\<close>
  "ratio_sum f =
     feature_get f ''tcp_ratio'' + feature_get f ''udp_ratio''
     + feature_get f ''icmp_ratio'' + feature_get f ''other_ratio''"

definition score_denominator :: "rat list \<Rightarrow> rat" where
  \<comment> \<open>\<open>max - min + 1e-8\<close> of a batch of scores in binary64 arithmetic: the difference is
      rounded, then the sum with the literal is rounded\<close>
  "score_denominator scores =
     round_binary64 (round_binary64 (np_max scores - np_min scores) + round_binary64 (1 / 10 ^ 8))"

definition min_max_normalised :: "rat list \<Rightarrow> rat \<Rightarrow> rat" where
  \<comment> \<open>\<open>(s - min) / (max - min + 1e-8)\<close> in binary64 arithmetic: the rounded difference over
      the denominator, rounded\<close>
  "min_max_normalised scores s =
     round_binary64 (round_binary64 (s - np_min scores) / score_denominator scores)"

section \<open>Facts about the arithmetic\<close>

lemma bind_err_Inl [simp]: "bind_err (Inl e) f = Inl e"
  by (simp add: bind_err_def)

lemma bind_err_Inr [simp]: "bind_err (Inr v) f = f v"
  by (simp add: bind_err_def)

lemma truediv_eval:
  assumes "b \<noteq> 0" and "round_binary64 (of_int a / of_int b) = r" and "\<bar>r\<bar> < 2 ^ 1024"
  shows "truediv a b = Inr (of_rat r)"
  using assms by (simp add: truediv_def Let_def)

lemma truediv_zero: "b \<noteq> 0 \<Longrightarrow> truediv 0 b = Inr 0"
  by (simp add: truediv_def round_binary64_def)

lemma round_binary64_one: "round_binary64 1 = 1"
  by code_simp

lemma truediv_self: "b \<noteq> 0 \<Longrightarrow> truediv b b = Inr 1"
  by (simp add: truediv_def round_binary64_one)

lemma truediv_1_60: "truediv 1 60 = Inr (4803839602528529 / 2 ^ 58)"
proof -
  have "round_binary64 (of_int 1 / of_int 60) = 4803839602528529 / 2 ^ 58"
    by code_simp
  from truediv_eval[OF _ this] show ?thesis
    by (simp add: of_rat_divide)
qed

lemma round_half_even_error: "\<bar>of_int (round_half_even y) - y\<bar> \<le> 1 / 2"
proof -
  have "of_int \<lfloor>y\<rfloor> \<le> y" "y < of_int \<lfloor>y\<rfloor> + 1" by linarith+
  then show ?thesis
    by (auto simp: round_half_even_def Let_def abs_le_iff)
qed

lemma binary_exponent_bounds:
  assumes "x \<noteq> 0"
  shows "2 powi (binary_exponent x) \<le> \<bar>x\<bar>" and "\<bar>x\<bar> < 2 powi (binary_exponent x + 1)"
proof -
  obtain p q where pq: "quotient_of \<bar>x\<bar> = (p, q)" by (cases "quotient_of \<bar>x\<bar>")
  have q: "0 < q" using pq quotient_of_denom_pos by blast
  have x: "\<bar>x\<bar> = of_int p / of_int q" using pq quotient_of_div by blast
  have "0 < \<bar>x\<bar>" using assms by simp
  then have p: "0 < p" using x q by (simp add: zero_less_divide_iff)
  define bp where "bp = bitlen p"
  define bq where "bq = bitlen q"
  have bp1: "1 \<le> bp" using p by (simp add: bp_def bitlen_alt_def)
  have bq1: "1 \<le> bq" using q by (simp add: bq_def bitlen_alt_def)
  have pl: "(2::int) ^ nat (bp - 1) \<le> p" and pu: "p < 2 ^ nat bp"
    using bitlen_bounds[OF p] by (simp_all add: bp_def)
  have ql: "(2::int) ^ nat (bq - 1) \<le> q" and qu: "q < 2 ^ nat bq"
    using bitlen_bounds[OF q] by (simp_all add: bq_def)
  have plr: "(2::rat) powi (bp - 1) \<le> of_int p"
  proof -
    have "(of_int ((2::int) ^ nat (bp - 1)) :: rat) \<le> of_int p" using pl by (simp only: of_int_le_iff)
    then show ?thesis using bp1 by (simp add: power_int_def)
  qed
  have pur: "of_int p < (2::rat) powi bp"
  proof -
    have "(of_int p :: rat) < of_int ((2::int) ^ nat bp)" using pu by (simp only: of_int_less_iff)
    then show ?thesis using bp1 by (simp add: power_int_def)
  qed
  have qlr: "(2::rat) powi (bq - 1) \<le> of_int q"
  proof -
    have "(of_int ((2::int) ^ nat (bq - 1)) :: rat) \<le> of_int q" using ql by (simp only: of_int_le_iff)
    then show ?thesis using bq1 by (simp add: power_int_def)
  qed
  have qur: "of_int q < (2::rat) powi bq"
  proof -
    have "(of_int q :: rat) < of_int ((2::int) ^ nat bq)" using qu by (simp only: of_int_less_iff)
    then show ?thesis using bq1 by (simp add: power_int_def)
  qed
  have qpos: "(0::rat) < of_int q" using q by simp
  have lower: "(2::rat) powi (bp - bq - 1) < \<bar>x\<bar>"
  proof -
    have "(2::rat) powi (bp - bq - 1) * of_int q < 2 powi (bp - bq - 1) * 2 powi bq"
      using qur by simp
    also have "\<dots> = 2 powi (bp - 1)"
      by (simp add: power_int_add[symmetric])
    also have "\<dots> \<le> of_int p" by (rule plr)
    finally show ?thesis using qpos by (simp add: x pos_less_divide_eq)
  qed
  have upper: "\<bar>x\<bar> < (2::rat) powi (bp - bq + 1)"
  proof -
    have "of_int p < (2::rat) powi bp" by (rule pur)
    also have "\<dots> = 2 powi (bp - bq + 1) * 2 powi (bq - 1)"
      by (simp add: power_int_add[symmetric])
    also have "\<dots> \<le> 2 powi (bp - bq + 1) * of_int q"
      using qlr by simp
    finally show ?thesis using qpos by (simp add: x pos_divide_less_eq)
  qed
  have e: "binary_exponent x = (if 2 powi (bp - bq) \<le> \<bar>x\<bar> then bp - bq else bp - bq - 1)"
    by (simp add: binary_exponent_def pq bp_def bq_def Let_def)
  show "2 powi (binary_exponent x) \<le> \<bar>x\<bar>"
    using lower by (simp add: e)
  show "\<bar>x\<bar> < 2 powi (binary_exponent x + 1)"
    using upper by (auto simp: e not_le)
qed

lemma quantum_pos: "0 < quantum x"
  by (simp add: quantum_def zero_less_power_int)

lemma round_binary64_error: "\<bar>round_binary64 x - x\<bar> \<le> quantum x / 2"
proof (cases "x = 0")
  case True
  then show ?thesis using quantum_pos[of x] by (simp add: round_binary64_def)
next
  case False
  define q where "q = quantum x"
  have q: "0 < q" by (simp add: q_def quantum_pos)
  have "\<bar>of_int (round_half_even (x / q)) - x / q\<bar> \<le> 1 / 2"
    by (rule round_half_even_error)
  then have "\<bar>of_int (round_half_even (x / q)) - x / q\<bar> * q \<le> 1 / 2 * q"
    using q by (simp only: mult_le_cancel_right_pos)
  moreover have "\<bar>of_int (round_half_even (x / q)) - x / q\<bar> * q
      = \<bar>of_int (round_half_even (x / q)) * q - x\<bar>"
  proof -
    have "\<bar>of_int (round_half_even (x / q)) - x / q\<bar> * q
        = \<bar>(of_int (round_half_even (x / q)) - x / q) * q\<bar>"
      using q by (simp add: abs_mult)
    also have "(of_int (round_half_even (x / q)) - x / q) * q
        = of_int (round_half_even (x / q)) * q - x"
      using q by (simp add: left_diff_distrib)
    finally show ?thesis .
  qed
  ultimately show ?thesis
    using False by (simp add: round_binary64_def q_def)
qed

lemma round_binary64_unit_error:
  assumes "0 \<le> x" and "x \<le> 1"
  shows "\<bar>round_binary64 x - x\<bar> \<le> 1 / 2 ^ 54"
proof -
  consider "x = 0" | "x = 1" | "0 < x" "x < 1"
    using assms by fastforce
  then show ?thesis
  proof cases
    case 1
    then show ?thesis by (simp add: round_binary64_def)
  next
    case 2
    then show ?thesis by (simp add: round_binary64_one)
  next
    case 3
    then have nz: "x \<noteq> 0" by simp
    have "2 powi (binary_exponent x) \<le> \<bar>x\<bar>"
      using binary_exponent_bounds(1)[OF nz] .
    also have "\<bar>x\<bar> < 2 powi 0"
      using 3 by simp
    finally have "binary_exponent x < 0"
      using power_int_le_imp_less_exp[of "2::rat" "binary_exponent x" 0] by simp
    then have "max (binary_exponent x) (- 1022) - 52 \<le> - 53"
      by simp
    then have "quantum x \<le> 2 powi (- 53)"
      unfolding quantum_def by (intro power_int_increasing) simp_all
    then have "quantum x \<le> 1 / 2 ^ 53"
      by (simp add: power_int_def power_one_over)
    then have "quantum x / 2 \<le> 1 / 2 ^ 54"
      by simp
    then show ?thesis
      using round_binary64_error[of x] by linarith
  qed
qed

section \<open>Facts about binary64 rounding\<close>

lemma epsilon_value: "round_binary64 (1 / 10 ^ 8) = 3022314549036573 / 2 ^ 78"
  by code_simp

lemma alert_threshold_value: "round_binary64 (7 / 10) = 3152519739159347 / 2 ^ 52"
  by code_simp

lemma round_binary64_zero: "round_binary64 0 = 0"
  by (simp add: round_binary64_def)

lemma f64_round_zero: "f64_round 0 = Finite 0"
  by (simp add: f64_round_def overflow64_def round_binary64_zero)

lemma f64_round_epsilon: "f64_round (3022314549036573 / 2 ^ 78) = Finite (3022314549036573 / 2 ^ 78)"
proof -
  have "round_binary64 (3022314549036573 / 2 ^ 78) = 3022314549036573 / 2 ^ 78"
    by code_simp
  then show ?thesis
    by (simp add: f64_round_def overflow64_def)
qed

lemma f64_sub_self: "f64_sub (Finite s) (Finite s) = Finite 0"
  by (simp add: f64_sub_def f64_round_zero)

lemma epsilon_spread:
  "f64_add (Finite 0) (Finite (round_binary64 (1 / 10 ^ 8))) = Finite (3022314549036573 / 2 ^ 78)"
  unfolding epsilon_value by (simp only: f64_add.simps add_0 f64_round_epsilon)














section \<open>Evaluating \<open>extract_features\<close> step by step\<close>

lemma extract_features_unfold:
  assumes "packet_buffer fx \<noteq> []" and "window_packets fx now = wp" and "wp \<noteq> []"
    and "truediv (int (length wp)) (window_size fx) = Inr packet_rate"
    and "count_loop ([], 0) wp = (pc, tb)"
    and "(if 0 < window_size fx then truediv tb (window_size fx) else Inr 0) = Inr byte_rate"
    and "protocol_ratios pc = Inr ratios"
  shows "extract_features fx now =
     bind_err (extract_flow_features wp) (\<lambda>flow_features.
     bind_err (extract_connection_features wp) (\<lambda>connection_features.
       bind_err (extract_size_features wp) (\<lambda>size_features.
       Inr (dict_update
             (dict_update
               (dict_update
                 ([(''packet_count'', real (length wp)), (''packet_rate'', packet_rate),
                   (''total_bytes'', real_of_int tb), (''byte_rate'', byte_rate)] @ ratios)
                 flow_features)
               connection_features)
             size_features))))"
  using assms by (simp add: extract_features_def)

lemma window_packets_retained:
  "window_packets (retained lss) 120000000 = packet_buffer (retained lss)"
  by (simp add: window_packets_def retained_def)

lemma protocol_ratios_single:
  "protocol_ratios (increment [] k) =
     Inr [(''tcp_ratio'', if k = ''tcp'' then 1 else 0),
          (''udp_ratio'', if k = ''udp'' then 1 else 0),
          (''icmp_ratio'', if k = ''icmp'' then 1 else 0),
          (''other_ratio'', if k = ''other'' then 1 else 0)]"
  using truediv_zero[of 1] truediv_self[of 1]
  by (simp add: protocol_ratios_def increment_def count_of_def)

lemma retained_single_unfold:
  assumes "ip_len_parsed ls = None"
  shows "extract_features (retained [ls]) 120000000 =
     bind_err (extract_flow_features [\<lparr>timestamp = 100000000, layers = ls\<rparr>]) (\<lambda>flow_features.
     bind_err (extract_connection_features [\<lparr>timestamp = 100000000, layers = ls\<rparr>])
       (\<lambda>connection_features.
       bind_err (extract_size_features [\<lparr>timestamp = 100000000, layers = ls\<rparr>]) (\<lambda>size_features.
       Inr (dict_update
             (dict_update
               (dict_update
                 [(''packet_count'', 1), (''packet_rate'', 4803839602528529 / 2 ^ 58),
                  (''total_bytes'', 0), (''byte_rate'', 0),
                  (''tcp_ratio'', if protocol_of ls = ''tcp'' then 1 else 0),
                  (''udp_ratio'', if protocol_of ls = ''udp'' then 1 else 0),
                  (''icmp_ratio'', if protocol_of ls = ''icmp'' then 1 else 0),
                  (''other_ratio'', if protocol_of ls = ''other'' then 1 else 0)]
                 flow_features)
               connection_features)
             size_features))))"
proof -
  have "extract_features (retained [ls]) 120000000 =
     bind_err (extract_flow_features [\<lparr>timestamp = 100000000, layers = ls\<rparr>]) (\<lambda>flow_features.
     bind_err (extract_connection_features [\<lparr>timestamp = 100000000, layers = ls\<rparr>])
       (\<lambda>connection_features.
       bind_err (extract_size_features [\<lparr>timestamp = 100000000, layers = ls\<rparr>]) (\<lambda>size_features.
       Inr (dict_update
             (dict_update
               (dict_update
                 ([(''packet_count'', real (length [\<lparr>timestamp = 100000000, layers = ls\<rparr>])),
                   (''packet_rate'', 4803839602528529 / 2 ^ 58),
                   (''total_bytes'', real_of_int 0), (''byte_rate'', 0)]
                  @ [(''tcp_ratio'', if protocol_of ls = ''tcp'' then 1 else 0),
                     (''udp_ratio'', if protocol_of ls = ''udp'' then 1 else 0),
                     (''icmp_ratio'', if protocol_of ls = ''icmp'' then 1 else 0),
                     (''other_ratio'', if protocol_of ls = ''other'' then 1 else 0)])
                 flow_features)
               connection_features)
             size_features))))"
  proof (rule extract_features_unfold)
    show "packet_buffer (retained [ls]) \<noteq> []" by (simp add: retained_def)
    show "window_packets (retained [ls]) 120000000 = [\<lparr>timestamp = 100000000, layers = ls\<rparr>]"
      by (simp add: window_packets_retained) (simp add: retained_def)
    show "[\<lparr>timestamp = 100000000, layers = ls\<rparr>] \<noteq> []" by simp
    show "truediv (int (length [\<lparr>timestamp = 100000000, layers = ls\<rparr>]))
            (window_size (retained [ls])) = Inr (4803839602528529 / 2 ^ 58)"
      using truediv_1_60 by (simp add: retained_def)
    show "count_loop ([], 0) [\<lparr>timestamp = 100000000, layers = ls\<rparr>]
            = (increment [] (protocol_of ls), 0)"
      using assms by simp
    show "(if 0 < window_size (retained [ls]) then truediv 0 (window_size (retained [ls]))
           else Inr 0) = Inr 0"
      by (simp add: retained_def truediv_zero)
    show "protocol_ratios (increment [] (protocol_of ls)) =
            Inr [(''tcp_ratio'', if protocol_of ls = ''tcp'' then 1 else 0),
                 (''udp_ratio'', if protocol_of ls = ''udp'' then 1 else 0),
                 (''icmp_ratio'', if protocol_of ls = ''icmp'' then 1 else 0),
                 (''other_ratio'', if protocol_of ls = ''other'' then 1 else 0)]"
      by (rule protocol_ratios_single)
  qed
  then show ?thesis by simp
qed

section \<open>The empty window\<close>

lemma default_features_all_zero:
  "\<forall>k \<in> set feature_order. map_of get_default_features k = Some 0"
  by (simp add: feature_order_def get_default_features_def)

lemma default_feature_vector:
  "map (feature_get get_default_features) feature_order = replicate 21 0"
  by (simp add: feature_order_def get_default_features_def feature_get_def numeral_eq_Suc)

lemma feature_order_21: "length feature_order = 21 \<and> distinct feature_order"
  by (simp add: feature_order_def)

text \<open>
  Claim C3. Whenever the retained history is empty, or no retained record has a timestamp
  at or after \<open>now - window_size\<close>, \<open>extract_features\<close> returns normally with the default
  feature map. That map gives the value 0 to each of the 21 feature names, and the
  ordered feature vector consists of 21 zeros.
\<close>

theorem extract_features_empty_window:
  assumes "packet_buffer fx = [] \<or>
           (\<forall>p \<in> set (packet_buffer fx). \<not> now - window_size fx * 1000000 \<le> timestamp p)"
  shows "extract_features fx now = Inr get_default_features
         \<and> length feature_order = 21 \<and> distinct feature_order
         \<and> (\<forall>k \<in> set feature_order. map_of get_default_features k = Some 0)
         \<and> get_feature_vector fx now = Inr (replicate 21 0)"
proof -
  have w: "packet_buffer fx \<noteq> [] \<Longrightarrow> window_packets fx now = []"
    using assms by (auto simp: window_packets_def filter_empty_conv)
  have e: "extract_features fx now = Inr get_default_features"
    using w by (cases "packet_buffer fx = []") (simp_all add: extract_features_def)
  have v: "get_feature_vector fx now = Inr (replicate 21 0)"
    by (simp add: get_feature_vector_def e bind_err_def default_feature_vector)
  show ?thesis
    using e v feature_order_21 default_features_all_zero by blast
qed

theorem extract_features_empty_window_witness:
  "extract_features \<lparr>window_size = 60, packet_buffer = [\<lparr>timestamp = 0, layers = []\<rparr>]\<rparr> 100000000
     = Inr get_default_features
   \<and> get_feature_vector \<lparr>window_size = 60, packet_buffer = [\<lparr>timestamp = 0, layers = []\<rparr>]\<rparr> 100000000
     = Inr (replicate 21 0)"
  using extract_features_empty_window
    [of "\<lparr>window_size = 60, packet_buffer = [\<lparr>timestamp = 0, layers = []\<rparr>]\<rparr>" 100000000]
  by simp

section \<open>Malformed records\<close>

lemma retained_single_flow_error:
  assumes "ip_len_parsed ls = None"
    and "extract_flow_features [\<lparr>timestamp = 100000000, layers = ls\<rparr>] = Inl e"
  shows "extract_features (retained [ls]) 120000000 = Inl e"
  by (simp add: retained_single_unfold[OF assms(1)] assms(2))

text \<open>
  A present but empty sequence in an address or port field makes the flow grouping raise,
  wherever the record stands in the window and whatever the other records are.
\<close>

lemma isl_bind_err: "isl (bind_err m g) = (case m of Inl e \<Rightarrow> True | Inr v \<Rightarrow> isl (g v))"
  by (cases m) simp_all

lemma flow_loop_raises:
  assumes "p \<in> set ps"
    and "address_pair (layers p) = Some (Inl e1) \<or> port_pair (layers p) = Inl e2"
  shows "isl (flow_loop flows ps)"
  using assms(1)
proof (induction ps arbitrary: flows)
  case Nil
  then show ?case by simp
next
  case (Cons q ps)
  show ?case
  proof (cases "q = p")
    case True
    show ?thesis
    proof (cases "case address_pair (layers p) of None \<Rightarrow> Inr (PNone, PNone) | Some r \<Rightarrow> r")
      case (Inl e)
      then show ?thesis by (simp add: True)
    next
      case (Inr sd)
      then have "port_pair (layers p) = Inl e2"
        using assms(2) by auto
      then show ?thesis
        using Inr by (cases sd) (simp add: True)
    qed
  next
    case False
    then have "p \<in> set ps" using Cons.prems by simp
    then have ih: "isl (flow_loop fl ps)" for fl
      using Cons.IH by blast
    show ?thesis
    proof (cases "case address_pair (layers q) of None \<Rightarrow> Inr (PNone, PNone) | Some r \<Rightarrow> r")
      case (Inl e)
      then show ?thesis by simp
    next
      case (Inr sd)
      obtain s d where sd: "sd = (s, d)" by (cases sd)
      show ?thesis
      proof (cases "port_pair (layers q)")
        case (Inl e)
        then show ?thesis using Inr by (simp add: sd)
      next
        case (Inr pp)
        obtain sp dp where pp: "pp = (sp, dp)" by (cases pp)
        show ?thesis
          using \<open>(case address_pair (layers q) of None \<Rightarrow> Inr (PNone, PNone) | Some r \<Rightarrow> r) = Inr sd\<close>
            Inr ih by (simp add: sd pp)
      qed
    qed
  qed
qed


lemma extract_features_flow_error:
  assumes "isl (extract_flow_features (window_packets fx now))"
    and "window_packets fx now \<noteq> []"
  shows "isl (extract_features fx now)"
proof -
  define wp where "wp = window_packets fx now"
  have buf: "packet_buffer fx \<noteq> []"
    using assms(2) by (auto simp: window_packets_def)
  obtain pc tb where cl: "count_loop ([], 0) wp = (pc, tb)"
    by (cases "count_loop ([], 0) wp")
  have flow: "isl (extract_flow_features wp)"
    using assms(1) by (simp add: wp_def)
  have e: "extract_features fx now =
      bind_err (truediv (int (length wp)) (window_size fx)) (\<lambda>packet_rate.
      bind_err (if 0 < window_size fx then truediv tb (window_size fx) else Inr 0) (\<lambda>byte_rate.
      bind_err (protocol_ratios pc) (\<lambda>ratios.
      bind_err (extract_flow_features wp) (\<lambda>flow_features.
      bind_err (extract_connection_features wp) (\<lambda>connection_features.
        bind_err (extract_size_features wp) (\<lambda>size_features.
        Inr (dict_update
              (dict_update
                (dict_update
                  ([(''packet_count'', real (length wp)), (''packet_rate'', packet_rate),
                    (''total_bytes'', real_of_int tb), (''byte_rate'', byte_rate)] @ ratios)
                  flow_features)
                connection_features)
              size_features)))))))"
    using buf assms(2) cl unfolding extract_features_def Let_def wp_def[symmetric]
    by simp
  obtain err where "extract_flow_features wp = Inl err"
    using flow by (auto simp: isl_def)
  then show ?thesis
    unfolding e by (simp add: isl_bind_err split: sum.splits)
qed

lemma empty_sequence_field_raises:
  assumes "(\<exists>ip. map_of ls ''ip'' = Some (PDict ip)
            \<and> (map_of ip ''ip_src'' = Some (PList []) \<or> map_of ip ''ip_dst'' = Some (PList [])))
         \<or> (\<exists>tcp. map_of ls ''tcp'' = Some (PDict tcp)
            \<and> (map_of tcp ''tcp_srcport'' = Some (PList [])
                 \<or> map_of tcp ''tcp_dstport'' = Some (PList [])))
         \<or> (\<exists>udp. map_of ls ''tcp'' = None \<and> map_of ls ''udp'' = Some (PDict udp)
            \<and> (map_of udp ''udp_srcport'' = Some (PList [])
                 \<or> map_of udp ''udp_dstport'' = Some (PList [])))"
  shows "address_pair ls = Some (Inl IndexError) \<or> port_pair ls = Inl IndexError"
proof -
  have g: "map_of l k = Some (PList []) \<Longrightarrow> get_field l k = Inl IndexError" for l k
    by (simp add: get_field_def)
  have two: "get_field l k1 = Inl IndexError \<or> get_field l k2 = Inl IndexError \<Longrightarrow>
      bind_err (get_field l k1) (\<lambda>a. bind_err (get_field l k2) (\<lambda>b. Inr (a, b))) = Inl IndexError"
    for l k1 k2
  proof -
    assume a: "get_field l k1 = Inl IndexError \<or> get_field l k2 = Inl IndexError"
    have "get_field l k1 = Inl IndexError \<or> (\<exists>v. get_field l k1 = Inr v)"
      by (auto simp: get_field_def split: option.splits pyval.splits list.splits)
    then show ?thesis using a by auto
  qed
  from assms consider
    ip where "map_of ls ''ip'' = Some (PDict ip)"
      "map_of ip ''ip_src'' = Some (PList []) \<or> map_of ip ''ip_dst'' = Some (PList [])"
    | tcp where "map_of ls ''tcp'' = Some (PDict tcp)"
      "map_of tcp ''tcp_srcport'' = Some (PList []) \<or> map_of tcp ''tcp_dstport'' = Some (PList [])"
    | udp where "map_of ls ''tcp'' = None" "map_of ls ''udp'' = Some (PDict udp)"
      "map_of udp ''udp_srcport'' = Some (PList []) \<or> map_of udp ''udp_dstport'' = Some (PList [])"
    by blast
  then show ?thesis
  proof cases
    case 1
    then have "address_pair ls = Some (Inl IndexError)"
      using two[of ip "''ip_src''" "''ip_dst''"] g by (auto simp: address_pair_def)
    then show ?thesis by simp
  next
    case 2
    then have "port_pair ls = Inl IndexError"
      using two[of tcp "''tcp_srcport''" "''tcp_dstport''"] g
      by (auto simp: port_pair_def has_key_def)
    then show ?thesis by simp
  next
    case 3
    then have "port_pair ls = Inl IndexError"
      using two[of udp "''udp_srcport''" "''udp_dstport''"] g
      by (auto simp: port_pair_def has_key_def)
    then show ?thesis by simp
  qed
qed

lemma extract_features_raises_on_empty_sequence:
  assumes "p \<in> set (window_packets fx now)"
    and "(\<exists>ip. map_of (layers p) ''ip'' = Some (PDict ip)
            \<and> (map_of ip ''ip_src'' = Some (PList []) \<or> map_of ip ''ip_dst'' = Some (PList [])))
         \<or> (\<exists>tcp. map_of (layers p) ''tcp'' = Some (PDict tcp)
            \<and> (map_of tcp ''tcp_srcport'' = Some (PList [])
                 \<or> map_of tcp ''tcp_dstport'' = Some (PList [])))
         \<or> (\<exists>udp. map_of (layers p) ''tcp'' = None \<and> map_of (layers p) ''udp'' = Some (PDict udp)
            \<and> (map_of udp ''udp_srcport'' = Some (PList [])
                 \<or> map_of udp ''udp_dstport'' = Some (PList [])))"
  shows "isl (extract_features fx now)"
proof -
  have "isl (flow_loop [] (window_packets fx now))"
    using flow_loop_raises[OF assms(1)] empty_sequence_field_raises[OF assms(2)] by blast
  then obtain err where "flow_loop [] (window_packets fx now) = Inl err"
    by (auto simp: isl_def)
  then have "isl (extract_flow_features (window_packets fx now))"
    by (simp add: extract_flow_features_def)
  moreover have "window_packets fx now \<noteq> []"
    using assms(1) by auto
  ultimately show ?thesis
    by (rule extract_features_flow_error)
qed

text \<open>
  Claim C1 says that \<open>extract_features\<close> never raises on a malformed record, in particular
  when one of the fields \<^verbatim>\<open>ip_src\<close>, \<^verbatim>\<open>ip_dst\<close>, \<^verbatim>\<open>tcp_srcport\<close>, \<^verbatim>\<open>tcp_dstport\<close>,
  \<^verbatim>\<open>udp_srcport\<close>, \<^verbatim>\<open>udp_dstport\<close> is present but is an empty sequence. The code does
  raise there: for a history of one in-window record with such a field, the flow grouping
  indexes the empty list and the whole call ends with IndexError. (The length field
  \<^verbatim>\<open>ip_len\<close> is guarded against the empty list; the address and port fields are not.)
  By \<open>extract_features_raises_on_empty_sequence\<close> the same happens in every window that
  holds such a record.
\<close>

theorem extract_features_empty_sequence_raises:
  "extract_features
     (retained [[(''ip'', PDict [(''ip_src'', PList []), (''ip_dst'', PStr ''10.0.0.2'')])]])
     120000000 = Inl IndexError
   \<and> extract_features
     (retained [[(''ip'', PDict [(''ip_src'', PStr ''10.0.0.1''), (''ip_dst'', PList [])])]])
     120000000 = Inl IndexError
   \<and> extract_features
     (retained [[(''tcp'', PDict [(''tcp_srcport'', PList []), (''tcp_dstport'', PInt 443)])]])
     120000000 = Inl IndexError
   \<and> extract_features
     (retained [[(''tcp'', PDict [(''tcp_srcport'', PInt 80), (''tcp_dstport'', PList [])])]])
     120000000 = Inl IndexError
   \<and> extract_features
     (retained [[(''udp'', PDict [(''udp_srcport'', PList []), (''udp_dstport'', PInt 53)])]])
     120000000 = Inl IndexError
   \<and> extract_features
     (retained [[(''udp'', PDict [(''udp_srcport'', PInt 53), (''udp_dstport'', PList [])])]])
     120000000 = Inl IndexError"
  by (intro conjI; rule retained_single_flow_error; code_simp)

section \<open>Byte accounting\<close>

lemma packet_sizes_Cons:
  "packet_sizes (p # ps) =
     (case ip_len_parsed (layers p) of None \<Rightarrow> packet_sizes ps | Some n \<Rightarrow> n # packet_sizes ps)"
  by (simp add: packet_sizes_def List.map_filter_simps split: option.splits)

lemma packet_sizes_Nil: "packet_sizes [] = []"
  by (simp add: packet_sizes_def List.map_filter_simps)

lemma count_loop_total_bytes:
  "snd (count_loop (pc, tb) ps) = tb + sum_list (packet_sizes ps)"
  by (induction ps arbitrary: pc tb) (auto simp: packet_sizes_Cons packet_sizes_Nil split: option.splits)

lemma ip_len_parsed_scalar:
  "ip_len_parsed [(''ip'', PDict [(''ip_len'', PInt n)])] = Some n"
  by (simp add: ip_len_parsed_def)

lemma ip_len_parsed_sequence:
  "ip_len_parsed [(''ip'', PDict [(''ip_len'', PList xs)])] = None"
  by (simp add: ip_len_parsed_def)

text \<open>
  Claim C2 says that a length field holding a one-element sequence contributes the value
  of its element to \<open>total_bytes\<close> and to the packet-size statistics. In the code the
  branch for a list only rebinds the local variable and the adding branch is its
  \<^verbatim>\<open>elif\<close>, so such a record contributes nothing: for a window of one record whose
  \<^verbatim>\<open>ip_len\<close> is \<^verbatim>\<open>[500]\<close> the byte total, the byte rate and the four size statistics
  are all 0.
\<close>

theorem extract_features_one_element_length:
  "extract_features (retained [[(''ip'', PDict [(''ip_len'', PList [PInt 500])])]]) 120000000
   = Inr [(''packet_count'', 1), (''packet_rate'', 4803839602528529 / 2 ^ 58),
          (''total_bytes'', 0), (''byte_rate'', 0),
          (''tcp_ratio'', 0), (''udp_ratio'', 0), (''icmp_ratio'', 0), (''other_ratio'', 1),
          (''num_flows'', 0), (''avg_flow_duration'', 0), (''max_flow_duration'', 0),
          (''avg_packets_per_flow'', 0), (''max_packets_per_flow'', 0),
          (''unique_sources'', 0), (''unique_destinations'', 0), (''unique_connections'', 0),
          (''connection_diversity'', 0),
          (''avg_packet_size'', 0), (''min_packet_size'', 0), (''max_packet_size'', 0),
          (''std_packet_size'', 0)]"
proof -
  let ?ls = "[(''ip'', PDict [(''ip_len'', PList [PInt 500])])]"
  let ?p = "\<lparr>timestamp = 100000000, layers = ?ls\<rparr>"
  have len: "ip_len_parsed ?ls = None"
    by (rule ip_len_parsed_sequence)
  have proto: "protocol_of ?ls = ''other''"
    by (simp add: protocol_of_def has_key_def)
  have flow: "extract_flow_features [?p] =
      Inr [(''num_flows'', 0), (''avg_flow_duration'', 0), (''max_flow_duration'', 0),
           (''avg_packets_per_flow'', 0), (''max_packets_per_flow'', 0)]"
    by code_simp
  have conn: "extract_connection_features [?p] =
      Inr [(''unique_sources'', 0), (''unique_destinations'', 0), (''unique_connections'', 0),
           (''connection_diversity'', 0)]"
    by code_simp
  have size: "extract_size_features [?p] =
      Inr [(''avg_packet_size'', 0), (''min_packet_size'', 0), (''max_packet_size'', 0),
           (''std_packet_size'', 0)]"
    by (simp add: extract_size_features_def packet_sizes_Cons packet_sizes_Nil len)
  show ?thesis
    by (simp add: retained_single_unfold[OF len] proto flow conn size dict_update_def)
qed

section \<open>The capture queue drops the oldest record\<close>

lemma push_not_full:
  "\<not> (0 < maxsize q \<and> maxsize q \<le> int (length (items q)))
    \<Longrightarrow> push q x = Inr (q\<lparr>items := items q @ [x]\<rparr>)"
  by (auto simp: push_def put_nowait_def)

lemma push_full:
  assumes "0 < maxsize q" and "int (length (items q)) = maxsize q"
  shows "push q x = Inr (q\<lparr>items := tl (items q) @ [x]\<rparr>)"
proof -
  obtain y ys where ys: "items q = y # ys"
    using assms by (cases "items q") auto
  show ?thesis
    using assms ys by (simp add: push_def put_nowait_def get_nowait_def)
qed

lemma push_bounded:
  assumes "0 < maxsize q" and "int (length (items q)) \<le> maxsize q"
  shows "push q x =
     Inr (q\<lparr>items := drop (length (items q) + 1 - nat (maxsize q)) (items q @ [x])\<rparr>)"
proof (cases "int (length (items q)) = maxsize q")
  case True
  then have "length (items q) + 1 - nat (maxsize q) = 1" by linarith
  moreover have "items q \<noteq> []" using True assms by auto
  moreover from this have "Suc 0 - length (items q) = 0" by (cases "items q") auto
  ultimately show ?thesis
    using push_full[OF assms(1) True, of x] by (simp add: drop_Suc)
next
  case False
  then have "length (items q) + 1 - nat (maxsize q) = 0" using assms by linarith
  then show ?thesis using False assms push_not_full[of q x] by simp
qed

lemma push_all_bounded:
  assumes "0 < maxsize q" and "int (length (items q)) \<le> maxsize q"
  shows "push_all q xs =
     Inr (q\<lparr>items := drop (length (items q @ xs) - nat (maxsize q)) (items q @ xs)\<rparr>)"
  using assms
proof (induction xs arbitrary: q)
  case Nil
  then have "length (items q) - nat (maxsize q) = 0" by linarith
  then show ?case by simp
next
  case (Cons x xs)
  define n where "n = nat (maxsize q)"
  define ys where "ys = items q @ [x]"
  define d where "d = length ys - n"
  define q1 where "q1 = q\<lparr>items := drop d ys\<rparr>"
  have p: "push q x = Inr q1"
    using push_bounded[OF Cons.prems, of x] by (simp add: q1_def d_def ys_def n_def)
  have m: "maxsize q1 = maxsize q" and i: "items q1 = drop d ys"
    by (simp_all add: q1_def)
  have l: "int (length (items q1)) \<le> maxsize q1"
    using Cons.prems by (auto simp: m i d_def ys_def n_def)
  have "push_all q1 xs =
     Inr (q1\<lparr>items := drop (length (items q1 @ xs) - nat (maxsize q1)) (items q1 @ xs)\<rparr>)"
    using Cons.IH[of q1] Cons.prems(1) l by (simp add: m)
  moreover have "drop (length (items q1 @ xs) - nat (maxsize q1)) (items q1 @ xs)
      = drop (length (ys @ xs) - n) (ys @ xs)"
  proof -
    have d: "d \<le> length ys" by (simp add: d_def)
    have e: "drop d ys @ xs = drop d (ys @ xs)"
      using d by simp
    have len: "length (drop d ys @ xs) - n + d = length (ys @ xs) - n"
      by (auto simp: d_def)
    have "drop (length (drop d ys @ xs) - n) (drop d ys @ xs)
        = drop (length (drop d ys @ xs) - n) (drop d (ys @ xs))"
      by (simp only: e)
    also have "\<dots> = drop (length (drop d ys @ xs) - n + d) (ys @ xs)"
      by (simp only: drop_drop)
    also have "\<dots> = drop (length (ys @ xs) - n) (ys @ xs)"
      by (simp only: len)
    finally show ?thesis by (simp only: i m n_def[symmetric])
  qed
  moreover have "q1\<lparr>items := drop (length (ys @ xs) - n) (ys @ xs)\<rparr>
      = q\<lparr>items := drop (length (items q @ x # xs) - nat (maxsize q)) (items q @ x # xs)\<rparr>"
    by (simp add: q1_def ys_def n_def)
  ultimately show ?case using p by simp
qed

text \<open>
  Claim C5. For a capture queue of capacity \<open>N\<close> (a positive \<^verbatim>\<open>maxsize\<close>; Python takes
  zero or less to mean unbounded), every sequence of pushes into the initially empty queue
  succeeds, the queue then holds the last \<open>min N (length xs)\<close> pushed records in arrival
  order, which are at most \<open>N\<close>, and a push onto a full queue removes exactly the oldest
  record before it appends the new one. Since \<open>xs\<close> is any sequence, this holds after
  each push.
\<close>

theorem push_keeps_most_recent:
  assumes "0 < N" and "maxsize q = N" and "int (length (items q)) = N"
  shows "push_all \<lparr>maxsize = N, items = []\<rparr> xs
           = Inr \<lparr>maxsize = N, items = drop (length xs - nat N) xs\<rparr>
         \<and> int (length (drop (length xs - nat N) xs)) \<le> N
         \<and> push q x = Inr (q\<lparr>items := tl (items q) @ [x]\<rparr>)"
proof -
  have "push_all \<lparr>maxsize = N, items = []\<rparr> xs
      = Inr \<lparr>maxsize = N, items = drop (length xs - nat N) xs\<rparr>"
    using push_all_bounded[of "\<lparr>maxsize = N, items = []\<rparr>" xs] assms(1) by simp
  moreover have "int (length (drop (length xs - nat N) xs)) \<le> N"
    using assms(1) by simp
  moreover have "push q x = Inr (q\<lparr>items := tl (items q) @ [x]\<rparr>)"
    using push_full[of q x] assms by simp
  ultimately show ?thesis by blast
qed

theorem push_keeps_most_recent_witness:
  "push_all \<lparr>maxsize = 2, items = []\<rparr> [1, 2, 3 :: nat] = Inr \<lparr>maxsize = 2, items = [2, 3]\<rparr>
   \<and> push \<lparr>maxsize = 2, items = [1, 2 :: nat]\<rparr> 3 = Inr \<lparr>maxsize = 2, items = [2, 3]\<rparr>"
  using push_keeps_most_recent[of 2 "\<lparr>maxsize = 2, items = [1, 2 :: nat]\<rparr>" "[1, 2, 3 :: nat]" 3]
  by simp

section \<open>Scores of the detector\<close>





lemma foldl_max_replicate: "foldl max (c::'a::linorder) (replicate n c) = c"
  by (induction n) simp_all


lemma length_mse_rows: "mse_rows d X = Some mse \<Longrightarrow> length mse = length X"
proof -
  assume a: "mse_rows d X = Some mse"
  then obtain R where R: "reconstruct d X = Some R" "map length R = map length X"
    by (auto simp: mse_rows_def split: option.splits if_splits)
  from R(2) have "length R = length X" using map_eq_imp_length_eq by blast
  then show ?thesis using a R by (auto simp: mse_rows_def)
qed

lemma length_raw_scores: "length (raw_scores d X) = length X"
  by (auto simp: raw_scores_def score_lstm_def score_autoencoder_def Let_def length_mse_rows
      split: option.splits)


text \<open>
  Claim C6. An untrained detector answers every batch with the all-normal prediction (1
  for every row) and the all-zero score vector, and both calls return normally.
\<close>

theorem untrained_defaults:
  assumes "\<not> is_trained d"
  shows "predict d X = Inr (replicate (length X) 1)
         \<and> predict_proba d X = Inr (replicate (length X) (Finite 0))"
  using assms by (simp add: predict_def predict_proba_def)

theorem untrained_defaults_witness:
  "predict (demo_detector False (\<lambda>row. - 1)) [[1, 2], [3, 4]] = Inr [1, 1]
   \<and> predict_proba (demo_detector False (\<lambda>row. - 1)) [[1, 2], [3, 4]]
       = Inr [Finite 0, Finite 0]"
  using untrained_defaults[of "demo_detector False (\<lambda>row. - 1)" "[[1, 2], [3, 4]]"]
  by (simp add: demo_detector_def)


section \<open>Normalised scores\<close>











lemma min_max_normalised_min:
  "min_max_normalised scores (np_min scores) = 0"
  by (simp add: min_max_normalised_def round_binary64_zero)








section \<open>A batch of one row\<close>

lemma normalize_scores_single: "normalize_scores [s] = Inr [Finite 0]"
proof -
  have "f64_div (Finite 0) (Finite (3022314549036573 / 2 ^ 78)) = Finite 0"
    by (simp add: f64_round_zero)
  then show ?thesis
    unfolding normalize_scores_def np_min_def np_max_def Let_def
    by (simp only: list.case foldl_Nil f64_sub_self epsilon_spread list.map) simp
qed

lemma predict_proba_single: "predict_proba d [x] = Inr [Finite 0]"
proof (cases "is_trained d")
  case False
  then show ?thesis by (simp add: predict_proba_def)
next
  case True
  have "length (raw_scores d [x]) = 1"
    by (simp add: length_raw_scores)
  then obtain s where "raw_scores d [x] = [s]"
    by (cases "raw_scores d [x]") auto
  then show ?thesis
    using True by (simp add: predict_proba_def normalize_scores_single)
qed

lemma log_detection_keeps:
  "detection_count (log_detection env a f b s) = detection_count a"
  "alerts (log_detection env a f b s) = alerts a"
  by (simp_all add: log_detection_def Let_def)

lemma loop_error_keeps:
  "detection_count (loop_error a e) = detection_count a"
  "alerts (loop_error a e) = alerts a"
  by (simp_all add: loop_error_def)

lemma analysis_iteration_no_alert:
  "detection_count (analysis_iteration fromisoformat env a pkts) = detection_count a
   \<and> alerts (analysis_iteration fromisoformat env a pkts) = alerts a"
  by (simp add: analysis_iteration_def predict_proba_single log_detection_keeps
      loop_error_keeps alert_threshold_value Let_def
      split: prod.splits option.splits sum.splits)

lemma analysis_loop_no_alert:
  "detection_count (analysis_loop fromisoformat a passes) = detection_count a
   \<and> alerts (analysis_loop fromisoformat a passes) = alerts a"
proof (induction passes arbitrary: a)
  case Nil
  show ?case by simp
next
  case (Cons pass passes)
  obtain env pkts where pass: "pass = (env, pkts)" by (cases pass)
  show ?case
    using Cons.IH[of "analysis_iteration fromisoformat env a pkts"]
      analysis_iteration_no_alert[of fromisoformat env a pkts]
    by (simp add: pass)
qed

text \<open>
  Claim C9. For a batch of one row \<open>predict_proba\<close> returns exactly \<open>[0]\<close>, trained or
  not: the only raw score is the minimum of the batch, and its difference from itself is
  the binary64 zero, which the positive denominator \<open>0 + 1e-8\<close> divides to zero. The
  analysis loop scores one row per pass, so the test \<open>0.7 < anomaly_score\<close> fails in
  every pass: no pass, and no sequence of passes, writes an alert record or changes
  \<open>detection_count\<close>.
\<close>

theorem single_row_score_is_zero:
  "predict_proba d [x] = Inr [Finite 0]
   \<and> detection_count (analysis_iteration fromisoformat env a pkts) = detection_count a
   \<and> alerts (analysis_iteration fromisoformat env a pkts) = alerts a
   \<and> detection_count (analysis_loop fromisoformat a passes) = detection_count a
   \<and> alerts (analysis_loop fromisoformat a passes) = alerts a"
  using predict_proba_single analysis_iteration_no_alert analysis_loop_no_alert by blast

section \<open>Starting and stopping the agent\<close>

lemma stop_process_idem:
  "stop_process e2 (stop_process e1 p) = stop_process e1 p"
  by (cases p) (simp_all add: stop_process_def)

lemma stop_capture_twice:
  "stop_capture e2 (fst (stop_capture e1 c))
     = (fst (stop_capture e1 c),
        [if simulated c then SimulatedCaptureStopped else CaptureStopped])"
  by (simp add: stop_capture_def stop_process_idem option.map_comp comp_def)

lemma stop_twice:
  "stop e2 (stop e1 a)
     = (stop e1 a)\<lparr>logged := logged (stop e1 a) @
          [if simulated (capture a) then SimulatedCaptureStopped else CaptureStopped,
           AgentStopped (node_id a)]\<rparr>"
proof -
  obtain c entries where c: "stop_capture e1 (capture a) = (c, entries)"
    by (cases "stop_capture e1 (capture a)")
  have "stop_capture e2 c
      = (c, [if simulated (capture a) then SimulatedCaptureStopped else CaptureStopped])"
    using stop_capture_twice[of e2 e1 "capture a"] c by simp
  then show ?thesis
    using c by (simp add: stop_def)
qed

text \<open>
  Claim C8 says that a second \<open>stop\<close> produces no duplicate log entries. It does: \<open>stop\<close>
  does not look at the state and the loggers emit its entries on every call. After a start
  and two stops of the agent with the simulated capture, both stop entries are in the log
  twice.
\<close>

theorem stop_twice_logs_twice:
  "logged (stop True (stop True (start demo_agent)))
     = [SimulatedCaptureStarted ''any'', AgentStarted ''fog1'',
        SimulatedCaptureStopped, AgentStopped ''fog1'',
        SimulatedCaptureStopped, AgentStopped ''fog1'']"
  by (simp add: stop_def start_def demo_agent_def start_capture_def stop_capture_def)

text \<open>
  Claim C8, amended. \<open>start\<close> on a running agent only logs that the agent is already
  running: the capture, the count of launched threads and all other state are as before.
  A second \<open>stop\<close> raises nothing and leaves the state that the first one produced,
  except that it appends its two log entries again. No call of \<open>stop\<close> writes a
  detection or an alert record.
\<close>

theorem start_running_noop_stop_repeats_log:
  assumes "is_running a"
  shows "start a = a\<lparr>logged := logged a @ [AgentAlreadyRunning]\<rparr>
         \<and> stop e2 (stop e1 b)
             = (stop e1 b)\<lparr>logged := logged (stop e1 b) @
                  [if simulated (capture b) then SimulatedCaptureStopped else CaptureStopped,
                   AgentStopped (node_id b)]\<rparr>
         \<and> detections (stop e1 b) = detections b \<and> alerts (stop e1 b) = alerts b"
proof -
  have "detections (stop e1 b) = detections b \<and> alerts (stop e1 b) = alerts b"
    by (simp add: stop_def split: prod.splits)
  then show ?thesis
    using assms stop_twice[of e2 e1 b] by (simp add: start_def)
qed

theorem start_running_noop_stop_repeats_log_witness:
  "start (start demo_agent)
     = (start demo_agent)\<lparr>logged := logged (start demo_agent) @ [AgentAlreadyRunning]\<rparr>
   \<and> is_running (start demo_agent)
   \<and> analysis_threads (start (start demo_agent)) = 1
   \<and> capture_threads (capture (start (start demo_agent))) = 1"
  using start_running_noop_stop_repeats_log[of "start demo_agent" True True demo_agent]
  by (simp add: start_def demo_agent_def start_capture_def)

section \<open>Ingest fails on a bad timestamp\<close>

lemma add_packets_first_failure:
  assumes "\<exists>p \<in> set pkts. isl (parse_timestamp fromisoformat p)"
  shows "\<exists>e good bad rest.
           pkts = good @ bad # rest
           \<and> parse_timestamp fromisoformat bad = Inl e
           \<and> add_packets fromisoformat fx good = (None, snd (add_packets fromisoformat fx good))
           \<and> add_packets fromisoformat fx pkts
               = (Some e, snd (add_packets fromisoformat fx good))"
  using assms
proof (induction pkts arbitrary: fx)
  case Nil
  then show ?case by simp
next
  case (Cons p ps)
  show ?case
  proof (cases "parse_timestamp fromisoformat p")
    case (Inl e)
    then have "p # ps = [] @ p # ps \<and> parse_timestamp fromisoformat p = Inl e
        \<and> add_packets fromisoformat fx [] = (None, snd (add_packets fromisoformat fx []))
        \<and> add_packets fromisoformat fx (p # ps) = (Some e, snd (add_packets fromisoformat fx []))"
      by simp
    then show ?thesis by blast
  next
    case (Inr t)
    define fx1 where "fx1 = fx\<lparr>packet_buffer :=
        deque_append (packet_buffer fx)
          \<lparr>timestamp = t, layers = (case raw_layers p of None \<Rightarrow> [] | Some ls \<Rightarrow> ls)\<rparr>\<rparr>"
    have step: "add_packets fromisoformat fx (p # qs) = add_packets fromisoformat fx1 qs" for qs
      using Inr by (simp add: fx1_def)
    have "\<exists>q \<in> set ps. isl (parse_timestamp fromisoformat q)"
      using Cons.prems Inr by auto
    then obtain e good bad rest where r: "ps = good @ bad # rest"
        "parse_timestamp fromisoformat bad = Inl e"
        "add_packets fromisoformat fx1 good = (None, snd (add_packets fromisoformat fx1 good))"
        "add_packets fromisoformat fx1 ps = (Some e, snd (add_packets fromisoformat fx1 good))"
      using Cons.IH[of fx1] by blast
    have s1: "add_packets fromisoformat fx (p # good) = add_packets fromisoformat fx1 good"
      and s2: "add_packets fromisoformat fx (p # ps) = add_packets fromisoformat fx1 ps"
      by (rule step)+
    have "p # ps = (p # good) @ bad # rest"
      using r(1) by simp
    moreover have "add_packets fromisoformat fx (p # good)
        = (None, snd (add_packets fromisoformat fx (p # good)))"
      unfolding s1 by (rule r(3))
    moreover have "add_packets fromisoformat fx (p # ps)
        = (Some e, snd (add_packets fromisoformat fx (p # good)))"
      unfolding s1 s2 by (rule r(4))
    ultimately show ?thesis
      using r(2) by blast
  qed
qed

lemma parse_timestamp_rejects:
  "raw_timestamp p = None \<Longrightarrow> parse_timestamp fromisoformat p = Inl KeyError"
  "raw_timestamp p = Some (PStr s) \<Longrightarrow> fromisoformat s = None
     \<Longrightarrow> parse_timestamp fromisoformat p = Inl ValueError"
  "raw_timestamp p = Some v \<Longrightarrow> \<forall>s. v \<noteq> PStr s
     \<Longrightarrow> parse_timestamp fromisoformat p = Inl TypeError"
  by (simp_all add: parse_timestamp_def split: pyval.splits)

text \<open>
  Claim C10. If a supplied record has no \<^verbatim>\<open>timestamp\<close> key, or its timestamp is a string
  that \<^verbatim>\<open>fromisoformat\<close> rejects or is no string, then \<open>add_packets\<close> raises: the call ends at the first
  record \<open>bad\<close> whose timestamp cannot be read, with that record's error, and the extractor
  is in the state in which the records \<open>good\<close> before \<open>bad\<close> left it, so that none of
  the records from \<open>bad\<close> on is appended. A record without the key gives KeyError, a
  rejected string gives ValueError and a value that is no string gives TypeError.
\<close>

theorem add_packets_raises_on_bad_timestamp:
  assumes "p \<in> set pkts"
    and "raw_timestamp p = None
         \<or> (\<exists>s. raw_timestamp p = Some (PStr s) \<and> fromisoformat s = None)
         \<or> (\<exists>v. raw_timestamp p = Some v \<and> (\<forall>s. v \<noteq> PStr s))"
  shows "(\<exists>e good bad rest.
            pkts = good @ bad # rest
            \<and> parse_timestamp fromisoformat bad = Inl e
            \<and> add_packets fromisoformat fx good = (None, snd (add_packets fromisoformat fx good))
            \<and> add_packets fromisoformat fx pkts
                = (Some e, snd (add_packets fromisoformat fx good)))
         \<and> (parse_timestamp fromisoformat p = Inl KeyError
              \<or> parse_timestamp fromisoformat p = Inl ValueError
              \<or> parse_timestamp fromisoformat p = Inl TypeError)"
proof -
  from assms(2) consider
    (missing) "raw_timestamp p = None"
    | (rejected) s where "raw_timestamp p = Some (PStr s)" "fromisoformat s = None"
    | (no_string) v where "raw_timestamp p = Some v" "\<forall>s. v \<noteq> PStr s"
    by (elim disjE exE conjE)
  then have rej: "parse_timestamp fromisoformat p = Inl KeyError
      \<or> parse_timestamp fromisoformat p = Inl ValueError
      \<or> parse_timestamp fromisoformat p = Inl TypeError"
  proof cases
    case missing
    then show ?thesis by (simp add: parse_timestamp_rejects(1))
  next
    case rejected
    then show ?thesis by (simp add: parse_timestamp_rejects(2))
  next
    case no_string
    then show ?thesis by (simp add: parse_timestamp_rejects(3))
  qed
  then have "isl (parse_timestamp fromisoformat p)"
    by auto
  then have "\<exists>q \<in> set pkts. isl (parse_timestamp fromisoformat q)"
    using assms(1) by blast
  from add_packets_first_failure[OF this] obtain e good bad rest where
    "pkts = good @ bad # rest" "parse_timestamp fromisoformat bad = Inl e"
    "add_packets fromisoformat fx good = (None, snd (add_packets fromisoformat fx good))"
    "add_packets fromisoformat fx pkts = (Some e, snd (add_packets fromisoformat fx good))"
    by blast
  then show ?thesis
    using rej by blast
qed

theorem add_packets_raises_on_bad_timestamp_witness:
  "add_packets (\<lambda>s. if s = ''1970-01-01T00:01:40'' then Some 100000000 else None)
     \<lparr>window_size = 60, packet_buffer = []\<rparr>
     [\<lparr>raw_timestamp = Some (PStr ''1970-01-01T00:01:40''), raw_layers = Some []\<rparr>,
      \<lparr>raw_timestamp = None, raw_layers = Some []\<rparr>,
      \<lparr>raw_timestamp = Some (PStr ''1970-01-01T00:01:40''), raw_layers = Some []\<rparr>]
   = (Some KeyError,
      \<lparr>window_size = 60, packet_buffer = [\<lparr>timestamp = 100000000, layers = []\<rparr>]\<rparr>)
   \<and> add_packets (\<lambda>s. if s = ''1970-01-01T00:01:40'' then Some 100000000 else None)
     \<lparr>window_size = 60, packet_buffer = []\<rparr>
     [\<lparr>raw_timestamp = Some (PStr ''yesterday''), raw_layers = Some []\<rparr>]
   = (Some ValueError, \<lparr>window_size = 60, packet_buffer = []\<rparr>)"
  using add_packets_raises_on_bad_timestamp
    [of "\<lparr>raw_timestamp = None, raw_layers = Some []\<rparr>"
        "[\<lparr>raw_timestamp = Some (PStr ''1970-01-01T00:01:40''), raw_layers = Some []\<rparr>,
          \<lparr>raw_timestamp = None, raw_layers = Some []\<rparr>,
          \<lparr>raw_timestamp = Some (PStr ''1970-01-01T00:01:40''), raw_layers = Some []\<rparr>]"
        "\<lambda>s. if s = ''1970-01-01T00:01:40'' then Some 100000000 else None"
        "\<lparr>window_size = 60, packet_buffer = []\<rparr>"]
  by (simp add: parse_timestamp_def deque_append_def)

section \<open>Protocol classes and ratios\<close>

lemma bind_err_eq_Inr: "bind_err m g = Inr r \<longleftrightarrow> (\<exists>v. m = Inr v \<and> g v = Inr r)"
  by (cases m) simp_all

lemma truediv_Inr:
  assumes "truediv a b = Inr r"
  shows "b \<noteq> 0" and "r = of_rat (round_binary64 (of_int a / of_int b))"
  using assms by (auto simp: truediv_def Let_def split: if_splits)

lemma sum_increment: "sum_list (map snd (increment pc k)) = sum_list (map snd pc) + 1"
proof -
  have "sum_list (map snd (AList.update k (count_of pc k + 1) pc)) = sum_list (map snd pc) + 1"
    by (induction pc) (auto simp: count_of_def)
  then show ?thesis by (simp add: increment_def)
qed

lemma count_of_increment:
  "count_of (increment pc k) j = (if j = k then count_of pc k + 1 else count_of pc j)"
  by (simp add: increment_def count_of_def update_conv')

lemma count_loop_counts:
  "count_of (fst (count_loop (pc, tb) ps)) k = count_of pc k + class_count k ps"
  by (induction ps arbitrary: pc tb) (simp_all add: class_count_def count_of_increment)

lemma count_loop_sum:
  "sum_list (map snd (fst (count_loop (pc, tb) ps))) = sum_list (map snd pc) + length ps"
  by (induction ps arbitrary: pc tb) (simp_all add: sum_increment)

lemma protocol_of_cases:
  "protocol_of ls = ''tcp'' \<or> protocol_of ls = ''udp'' \<or> protocol_of ls = ''icmp''
   \<or> protocol_of ls = ''other''"
  by (simp add: protocol_of_def)

lemma protocol_of_priority:
  "(protocol_of ls = ''tcp'') = has_key ls ''tcp''"
  "(protocol_of ls = ''udp'') = (\<not> has_key ls ''tcp'' \<and> has_key ls ''udp'')"
  "(protocol_of ls = ''icmp'') = (\<not> has_key ls ''tcp'' \<and> \<not> has_key ls ''udp'' \<and> has_key ls ''icmp'')"
  "(protocol_of ls = ''other'') = (\<not> has_key ls ''tcp'' \<and> \<not> has_key ls ''udp'' \<and> \<not> has_key ls ''icmp'')"
  by (simp_all add: protocol_of_def)

lemma class_counts_total:
  "class_count ''tcp'' wp + class_count ''udp'' wp + class_count ''icmp'' wp
     + class_count ''other'' wp = length wp"
proof (induction wp)
  case Nil
  show ?case by (simp add: class_count_def)
next
  case (Cons p wp)
  show ?case
    using Cons.IH protocol_of_cases[of "layers p"] by (auto simp: class_count_def)
qed

lemma map_of_dict_update_other:
  "k \<notin> fst ` set e \<Longrightarrow> map_of (dict_update d e) k = map_of d k"
proof (induction e arbitrary: d)
  case Nil
  show ?case by (simp add: dict_update_def)
next
  case (Cons x e)
  obtain a b where x: "x = (a, b)" by (cases x)
  have "map_of (dict_update (AList.update a b d) e) k = map_of (AList.update a b d) k"
    using Cons by simp
  then show ?case
    using Cons.prems by (simp add: dict_update_def x update_conv')
qed

lemma flow_feature_keys:
  "extract_flow_features wp = Inr ff \<Longrightarrow>
   map fst ff = [''num_flows'', ''avg_flow_duration'', ''max_flow_duration'',
                 ''avg_packets_per_flow'', ''max_packets_per_flow'']"
  by (auto simp: extract_flow_features_def bind_err_eq_Inr Let_def)

lemma connection_feature_keys:
  "extract_connection_features wp = Inr cf \<Longrightarrow>
   map fst cf = [''unique_sources'', ''unique_destinations'', ''unique_connections'',
                 ''connection_diversity'']"
  by (auto simp: extract_connection_features_def bind_err_eq_Inr split: prod.splits)

lemma size_feature_keys:
  "extract_size_features wp = Inr sf \<Longrightarrow>
   map fst sf = [''avg_packet_size'', ''min_packet_size'', ''max_packet_size'', ''std_packet_size'']"
  by (auto simp: extract_size_features_def Let_def split: if_splits)


lemma protocol_ratios_Inr:
  assumes "protocol_ratios pc = Inr ratios" and "0 < sum_list (map snd pc)"
  shows "ratios =
     [(''tcp_ratio'', of_rat (round_binary64 (of_nat (count_of pc ''tcp'') / of_nat (sum_list (map snd pc))))),
      (''udp_ratio'', of_rat (round_binary64 (of_nat (count_of pc ''udp'') / of_nat (sum_list (map snd pc))))),
      (''icmp_ratio'', of_rat (round_binary64 (of_nat (count_of pc ''icmp'') / of_nat (sum_list (map snd pc))))),
      (''other_ratio'', of_rat (round_binary64 (of_nat (count_of pc ''other'') / of_nat (sum_list (map snd pc)))))]"
proof -
  define n where "n = int (sum_list (map snd pc))"
  have n: "0 < n" using assms(2) by (simp add: n_def)
  obtain t u i oth where
    t: "truediv (int (count_of pc ''tcp'')) n = Inr t" and
    u: "truediv (int (count_of pc ''udp'')) n = Inr u" and
    i: "truediv (int (count_of pc ''icmp'')) n = Inr i" and
    oth: "truediv (int (count_of pc ''other'')) n = Inr oth" and
    r: "ratios = [(''tcp_ratio'', t), (''udp_ratio'', u), (''icmp_ratio'', i), (''other_ratio'', oth)]"
    using assms(1) n unfolding protocol_ratios_def Let_def n_def[symmetric]
    by (auto simp: bind_err_eq_Inr)
  show ?thesis
    using truediv_Inr(2)[OF t] truediv_Inr(2)[OF u] truediv_Inr(2)[OF i] truediv_Inr(2)[OF oth]
    by (simp add: r n_def)
qed

lemma extract_features_ratios:
  assumes "extract_features fx now = Inr f" and "window_packets fx now \<noteq> []"
  shows "map_of f ''tcp_ratio'' = Some (of_rat (round_binary64
            (of_nat (class_count ''tcp'' (window_packets fx now)) / of_nat (length (window_packets fx now)))))"
    and "map_of f ''udp_ratio'' = Some (of_rat (round_binary64
            (of_nat (class_count ''udp'' (window_packets fx now)) / of_nat (length (window_packets fx now)))))"
    and "map_of f ''icmp_ratio'' = Some (of_rat (round_binary64
            (of_nat (class_count ''icmp'' (window_packets fx now)) / of_nat (length (window_packets fx now)))))"
    and "map_of f ''other_ratio'' = Some (of_rat (round_binary64
            (of_nat (class_count ''other'' (window_packets fx now)) / of_nat (length (window_packets fx now)))))"
proof -
  define wp where "wp = window_packets fx now"
  have wp: "wp \<noteq> []" using assms(2) by (simp add: wp_def)
  have buf: "packet_buffer fx \<noteq> []"
    using assms(2) by (auto simp: window_packets_def)
  obtain pc tb where cl: "count_loop ([], 0) wp = (pc, tb)"
    by (cases "count_loop ([], 0) wp")
  have pc: "pc = fst (count_loop ([], 0) wp)" by (simp add: cl)
  have total: "sum_list (map snd pc) = length wp"
    unfolding pc by (simp add: count_loop_sum)
  have cnt: "count_of pc k = class_count k wp" for k
    using count_loop_counts[of "[]" 0 wp k] by (simp add: pc count_of_def)
  obtain packet_rate byte_rate ratios ff cf sf where
    ratios: "protocol_ratios pc = Inr ratios" and
    ff: "extract_flow_features wp = Inr ff" and
    cf: "extract_connection_features wp = Inr cf" and
    sf: "extract_size_features wp = Inr sf" and
    f: "f = dict_update
             (dict_update
               (dict_update
                 ([(''packet_count'', real (length wp)), (''packet_rate'', packet_rate),
                   (''total_bytes'', real_of_int tb), (''byte_rate'', byte_rate)] @ ratios)
                 ff)
               cf)
             sf"
    using assms(1) buf wp cl unfolding extract_features_def Let_def wp_def[symmetric]
    by (auto simp: bind_err_eq_Inr)
  have r: "ratios =
     [(''tcp_ratio'', of_rat (round_binary64 (of_nat (class_count ''tcp'' wp) / of_nat (length wp)))),
      (''udp_ratio'', of_rat (round_binary64 (of_nat (class_count ''udp'' wp) / of_nat (length wp)))),
      (''icmp_ratio'', of_rat (round_binary64 (of_nat (class_count ''icmp'' wp) / of_nat (length wp)))),
      (''other_ratio'', of_rat (round_binary64 (of_nat (class_count ''other'' wp) / of_nat (length wp))))]"
    using protocol_ratios_Inr[OF ratios] wp by (simp add: total cnt)
  have keep: "map_of f k = map_of
       ([(''packet_count'', real (length wp)), (''packet_rate'', packet_rate),
         (''total_bytes'', real_of_int tb), (''byte_rate'', byte_rate)] @ ratios) k"
    if "k \<in> {''tcp_ratio'', ''udp_ratio'', ''icmp_ratio'', ''other_ratio''}" for k
  proof -
    have "k \<notin> fst ` set sf" "k \<notin> fst ` set cf" "k \<notin> fst ` set ff"
      using that size_feature_keys[OF sf] connection_feature_keys[OF cf] flow_feature_keys[OF ff]
      by (auto simp flip: set_map)
    then show ?thesis
      by (simp add: f map_of_dict_update_other)
  qed
  show "map_of f ''tcp_ratio'' = Some (of_rat (round_binary64
            (of_nat (class_count ''tcp'' (window_packets fx now)) / of_nat (length (window_packets fx now)))))"
    by (simp add: keep r wp_def[symmetric])
  show "map_of f ''udp_ratio'' = Some (of_rat (round_binary64
            (of_nat (class_count ''udp'' (window_packets fx now)) / of_nat (length (window_packets fx now)))))"
    by (simp add: keep r wp_def[symmetric])
  show "map_of f ''icmp_ratio'' = Some (of_rat (round_binary64
            (of_nat (class_count ''icmp'' (window_packets fx now)) / of_nat (length (window_packets fx now)))))"
    by (simp add: keep r wp_def[symmetric])
  show "map_of f ''other_ratio'' = Some (of_rat (round_binary64
            (of_nat (class_count ''other'' (window_packets fx now)) / of_nat (length (window_packets fx now)))))"
    by (simp add: keep r wp_def[symmetric])
qed

lemma ratio_error:
  assumes "0 < n" and "a \<le> n"
  shows "\<bar>round_binary64 (of_nat a / of_nat n) - of_nat a / of_nat n\<bar> \<le> 1 / 2 ^ 54"
proof (rule round_binary64_unit_error)
  show "(0::rat) \<le> of_nat a / of_nat n" by simp
  show "(of_nat a :: rat) / of_nat n \<le> 1"
    using assms by (simp add: divide_le_eq)
qed

lemma ratio_sum_bound:
  assumes "0 < n" and "a + b + c + d = n"
  shows "\<bar>real_of_rat (round_binary64 (of_nat a / of_nat n))
          + real_of_rat (round_binary64 (of_nat b / of_nat n))
          + real_of_rat (round_binary64 (of_nat c / of_nat n))
          + real_of_rat (round_binary64 (of_nat d / of_nat n)) - 1\<bar> \<le> 1 / 2 ^ 52"
proof -
  define ra where "ra = round_binary64 (of_nat a / of_nat n)"
  define rb where "rb = round_binary64 (of_nat b / of_nat n)"
  define rc where "rc = round_binary64 (of_nat c / of_nat n)"
  define rd where "rd = round_binary64 (of_nat d / of_nat n)"
  define e where "e = (1::rat) / 2 ^ 54"
  have ea: "\<bar>ra - of_nat a / of_nat n\<bar> \<le> e"
    unfolding ra_def e_def using assms by (intro ratio_error) auto
  have eb: "\<bar>rb - of_nat b / of_nat n\<bar> \<le> e"
    unfolding rb_def e_def using assms by (intro ratio_error) auto
  have ec: "\<bar>rc - of_nat c / of_nat n\<bar> \<le> e"
    unfolding rc_def e_def using assms by (intro ratio_error) auto
  have ed: "\<bar>rd - of_nat d / of_nat n\<bar> \<le> e"
    unfolding rd_def e_def using assms by (intro ratio_error) auto
  have one: "(of_nat a :: rat) / of_nat n + of_nat b / of_nat n + of_nat c / of_nat n
      + of_nat d / of_nat n = 1"
  proof -
    have "(of_nat a :: rat) / of_nat n + of_nat b / of_nat n + of_nat c / of_nat n
        + of_nat d / of_nat n = of_nat (a + b + c + d) / of_nat n"
      by (simp add: add_divide_distrib)
    then show ?thesis using assms by simp
  qed
  have up: "ra + rb + rc + rd - 1 \<le> 4 * e" and lo: "- (4 * e) \<le> ra + rb + rc + rd - 1"
    using ea eb ec ed one by linarith+
  define er where "er = (1::real) / 2 ^ 52"
  have e4: "real_of_rat (4 * e) = er"
    by (simp add: e_def er_def of_rat_divide)
  have "real_of_rat (ra + rb + rc + rd - 1) \<le> real_of_rat (4 * e)"
    using up by (simp only: of_rat_less_eq)
  moreover have "real_of_rat (- (4 * e)) \<le> real_of_rat (ra + rb + rc + rd - 1)"
    using lo by (simp only: of_rat_less_eq)
  ultimately have "real_of_rat ra + real_of_rat rb + real_of_rat rc + real_of_rat rd - 1 \<le> er"
    and "- er \<le> real_of_rat ra + real_of_rat rb + real_of_rat rc + real_of_rat rd - 1"
    unfolding of_rat_minus e4 by (simp_all only: of_rat_add of_rat_diff of_rat_1)
  then have "\<bar>real_of_rat ra + real_of_rat rb + real_of_rat rc + real_of_rat rd - 1\<bar> \<le> er"
    by linarith
  then have "\<bar>real_of_rat ra + real_of_rat rb + real_of_rat rc + real_of_rat rd - 1\<bar>
      \<le> 1 / 2 ^ 52"
    by (simp only: er_def)
  then show ?thesis
    by (simp only: ra_def rb_def rc_def rd_def)
qed

lemma round_binary64_error_below_two:
  assumes "\<bar>x\<bar> < 2"
  shows "\<bar>round_binary64 x - x\<bar> \<le> 1 / 2 ^ 53"
proof (cases "x = 0")
  case True
  then show ?thesis by (simp add: round_binary64_def)
next
  case False
  have "2 powi (binary_exponent x) \<le> \<bar>x\<bar>"
    using binary_exponent_bounds(1)[OF False] .
  also have "\<bar>x\<bar> < 2 powi 1"
    using assms by simp
  finally have "binary_exponent x < 1"
    using power_int_le_imp_less_exp[of "2::rat" "binary_exponent x" 1] by simp
  then have "max (binary_exponent x) (- 1022) - 52 \<le> - 52"
    by simp
  then have "quantum x \<le> 2 powi (- 52)"
    unfolding quantum_def by (intro power_int_increasing) simp_all
  then have "quantum x \<le> 1 / 2 ^ 52"
    by (simp add: power_int_def power_one_over)
  then have "quantum x / 2 \<le> 1 / 2 ^ 53"
    by simp
  then show ?thesis
    using round_binary64_error[of x] by linarith
qed

lemma float_ratio_sum_bound:
  assumes "0 < n" and "a + b + c + d = n"
  shows "\<bar>float_add (float_add (float_add (round_binary64 (of_nat a / of_nat n))
                                         (round_binary64 (of_nat b / of_nat n)))
                              (round_binary64 (of_nat c / of_nat n)))
                   (round_binary64 (of_nat d / of_nat n)) - 1\<bar> \<le> 1 / 2 ^ 50"
proof -
  define xa xb xc xd :: rat where "xa = of_nat a / of_nat n" and "xb = of_nat b / of_nat n"
    and "xc = of_nat c / of_nat n" and "xd = of_nat d / of_nat n"
  define ra rb rc rd where "ra = round_binary64 xa" and "rb = round_binary64 xb"
    and "rc = round_binary64 xc" and "rd = round_binary64 xd"
  define e where "e = (1::rat) / 2 ^ 54"
  have pos: "0 \<le> xa" "0 \<le> xb" "0 \<le> xc" "0 \<le> xd"
    by (simp_all add: xa_def xb_def xc_def xd_def)
  have one: "xa + xb + xc + xd = 1"
  proof -
    have "xa + xb + xc + xd = of_nat (a + b + c + d) / of_nat n"
      by (simp add: xa_def xb_def xc_def xd_def add_divide_distrib)
    then show ?thesis using assms by simp
  qed
  have ea: "\<bar>ra - xa\<bar> \<le> e"
    unfolding ra_def xa_def e_def using assms by (intro ratio_error) auto
  have eb: "\<bar>rb - xb\<bar> \<le> e"
    unfolding rb_def xb_def e_def using assms by (intro ratio_error) auto
  have ec: "\<bar>rc - xc\<bar> \<le> e"
    unfolding rc_def xc_def e_def using assms by (intro ratio_error) auto
  have ed: "\<bar>rd - xd\<bar> \<le> e"
    unfolding rd_def xd_def e_def using assms by (intro ratio_error) auto
  have esmall: "0 < e" "16 * e < 1"
    by (simp_all add: e_def)
  define s1 where "s1 = float_add ra rb"
  define s2 where "s2 = float_add s1 rc"
  define s3 where "s3 = float_add s2 rd"
  have b1: "\<bar>ra + rb\<bar> < 2"
    using ea eb pos one esmall by linarith
  have e1: "\<bar>s1 - (ra + rb)\<bar> \<le> 2 * e"
    using round_binary64_error_below_two[OF b1] by (simp add: s1_def float_add_def e_def)
  have b2: "\<bar>s1 + rc\<bar> < 2"
    using e1 ea eb ec pos one esmall by linarith
  have e2: "\<bar>s2 - (s1 + rc)\<bar> \<le> 2 * e"
    using round_binary64_error_below_two[OF b2] by (simp add: s2_def float_add_def e_def)
  have b3: "\<bar>s2 + rd\<bar> < 2"
    using e1 e2 ea eb ec ed pos one esmall by linarith
  have e3: "\<bar>s3 - (s2 + rd)\<bar> \<le> 2 * e"
    using round_binary64_error_below_two[OF b3] by (simp add: s3_def float_add_def e_def)
  have "\<bar>s3 - 1\<bar> \<le> 10 * e"
    using e1 e2 e3 ea eb ec ed one by linarith
  also have "\<dots> \<le> 1 / 2 ^ 50"
    by (simp add: e_def)
  finally show ?thesis
    by (simp only: s3_def s2_def s1_def ra_def rb_def rc_def rd_def xa_def xb_def xc_def xd_def)
qed

lemma truediv_6_60: "truediv 6 60 = Inr (3602879701896397 / 2 ^ 55)"
proof -
  have "round_binary64 (of_int 6 / of_int 60) = 3602879701896397 / 2 ^ 55"
    by code_simp
  from truediv_eval[OF _ this] show ?thesis
    by (simp add: of_rat_divide)
qed

lemma truediv_1_6: "truediv 1 6 = Inr (6004799503160661 / 2 ^ 55)"
proof -
  have "round_binary64 (of_int 1 / of_int 6) = 6004799503160661 / 2 ^ 55"
    by code_simp
  from truediv_eval[OF _ this] show ?thesis
    by (simp add: of_rat_divide)
qed

lemma truediv_4_6: "truediv 4 6 = Inr (6004799503160661 / 2 ^ 53)"
proof -
  have "round_binary64 (of_int 4 / of_int 6) = 6004799503160661 / 2 ^ 53"
    by code_simp
  from truediv_eval[OF _ this] show ?thesis
    by (simp add: of_rat_divide)
qed

lemma mixed_window_features:
  "extract_features
     (retained mixed_window) 120000000
   = Inr [(''packet_count'', 6), (''packet_rate'', 3602879701896397 / 2 ^ 55),
          (''total_bytes'', 0), (''byte_rate'', 0),
          (''tcp_ratio'', 0), (''udp_ratio'', 6004799503160661 / 2 ^ 55),
          (''icmp_ratio'', 6004799503160661 / 2 ^ 53),
          (''other_ratio'', 6004799503160661 / 2 ^ 55),
          (''num_flows'', 0), (''avg_flow_duration'', 0), (''max_flow_duration'', 0),
          (''avg_packets_per_flow'', 0), (''max_packets_per_flow'', 0),
          (''unique_sources'', 0), (''unique_destinations'', 0), (''unique_connections'', 0),
          (''connection_diversity'', 0),
          (''avg_packet_size'', 0), (''min_packet_size'', 0), (''max_packet_size'', 0),
          (''std_packet_size'', 0)]"
proof -
  define wp where "wp = map (\<lambda>ls. \<lparr>timestamp = 100000000, layers = ls\<rparr>) mixed_window"
  have buf: "packet_buffer (retained mixed_window) = wp" and ws: "window_size (retained mixed_window) = 60"
    by (simp_all add: retained_def wp_def)
  have len: "length wp = 6"
    by (simp add: wp_def mixed_window_def)
  have cl: "count_loop ([], 0) wp = ([(''udp'', 1), (''icmp'', 4), (''other'', 1)], 0)"
    unfolding wp_def mixed_window_def by code_simp
  have ratios: "protocol_ratios [(''udp'', 1), (''icmp'', 4), (''other'', 1)]
      = Inr [(''tcp_ratio'', 0), (''udp_ratio'', 6004799503160661 / 2 ^ 55),
             (''icmp_ratio'', 6004799503160661 / 2 ^ 53),
             (''other_ratio'', 6004799503160661 / 2 ^ 55)]"
    using truediv_zero[of 6] truediv_1_6 truediv_4_6
    by (simp add: protocol_ratios_def count_of_def)
  have flow: "extract_flow_features wp =
      Inr [(''num_flows'', 0), (''avg_flow_duration'', 0), (''max_flow_duration'', 0),
           (''avg_packets_per_flow'', 0), (''max_packets_per_flow'', 0)]"
    unfolding wp_def mixed_window_def by code_simp
  have conn: "extract_connection_features wp =
      Inr [(''unique_sources'', 0), (''unique_destinations'', 0), (''unique_connections'', 0),
           (''connection_diversity'', 0)]"
    unfolding wp_def mixed_window_def
    by (simp add: extract_connection_features_def address_pair_def truediv_zero)
  have sizes: "packet_sizes wp = []"
    unfolding wp_def mixed_window_def by code_simp
  have size: "extract_size_features wp =
      Inr [(''avg_packet_size'', 0), (''min_packet_size'', 0), (''max_packet_size'', 0),
           (''std_packet_size'', 0)]"
    by (simp add: extract_size_features_def sizes)
  have "extract_features (retained mixed_window) 120000000 =
     bind_err (extract_flow_features wp) (\<lambda>flow_features.
     bind_err (extract_connection_features wp) (\<lambda>connection_features.
       bind_err (extract_size_features wp) (\<lambda>size_features.
       Inr (dict_update
             (dict_update
               (dict_update
                 ([(''packet_count'', real (length wp)),
                   (''packet_rate'', 3602879701896397 / 2 ^ 55),
                   (''total_bytes'', real_of_int 0), (''byte_rate'', 0)]
                  @ [(''tcp_ratio'', 0), (''udp_ratio'', 6004799503160661 / 2 ^ 55),
                     (''icmp_ratio'', 6004799503160661 / 2 ^ 53),
                     (''other_ratio'', 6004799503160661 / 2 ^ 55)])
                 flow_features)
               connection_features)
             size_features))))"
  proof (rule extract_features_unfold)
    show "packet_buffer (retained mixed_window) \<noteq> []" unfolding buf by (simp add: wp_def mixed_window_def)
    show "window_packets (retained mixed_window) 120000000 = wp"
      by (simp add: window_packets_retained buf)
    show "wp \<noteq> []" by (simp add: wp_def mixed_window_def)
    show "truediv (int (length wp)) (window_size (retained mixed_window))
        = Inr (3602879701896397 / 2 ^ 55)"
      by (simp add: len ws truediv_6_60)
    show "count_loop ([], 0) wp = ([(''udp'', 1), (''icmp'', 4), (''other'', 1)], 0)"
      by (rule cl)
    show "(if 0 < window_size (retained mixed_window) then truediv 0 (window_size (retained mixed_window))
           else Inr 0) = Inr 0"
      by (simp add: ws truediv_zero)
    show "protocol_ratios [(''udp'', 1), (''icmp'', 4), (''other'', 1)]
      = Inr [(''tcp_ratio'', 0), (''udp_ratio'', 6004799503160661 / 2 ^ 55),
             (''icmp_ratio'', 6004799503160661 / 2 ^ 53),
             (''other_ratio'', 6004799503160661 / 2 ^ 55)]"
      by (rule ratios)
  qed
  then show ?thesis
    by (simp add: flow conn size len dict_update_def)
qed

text \<open>
  Claim C4 says that the four returned ratios add up to exactly 1. Each ratio is a count
  divided by the total and rounded to a binary64 number, and the roundings need not
  cancel: for a window of one UDP, four ICMP and one other record the returned ratios are
  0, the double nearest to 1/6, the double nearest to 2/3 and the double nearest to 1/6,
  all rounded down. Their exact sum is \<open>1 - 2 ^ -54\<close>, and their sum in binary64
  arithmetic, added from left to right as Python does, is \<open>1 - 2 ^ -53\<close>, printed as
  0.9999999999999999.
\<close>

theorem protocol_ratios_sum_not_one:
  "extract_features (retained mixed_window) 120000000
   = Inr [(''packet_count'', 6), (''packet_rate'', 3602879701896397 / 2 ^ 55),
          (''total_bytes'', 0), (''byte_rate'', 0),
          (''tcp_ratio'', 0), (''udp_ratio'', 6004799503160661 / 2 ^ 55),
          (''icmp_ratio'', 6004799503160661 / 2 ^ 53),
          (''other_ratio'', 6004799503160661 / 2 ^ 55),
          (''num_flows'', 0), (''avg_flow_duration'', 0), (''max_flow_duration'', 0),
          (''avg_packets_per_flow'', 0), (''max_packets_per_flow'', 0),
          (''unique_sources'', 0), (''unique_destinations'', 0), (''unique_connections'', 0),
          (''connection_diversity'', 0),
          (''avg_packet_size'', 0), (''min_packet_size'', 0), (''max_packet_size'', 0),
          (''std_packet_size'', 0)]
   \<and> ratio_sum (projr (extract_features (retained mixed_window) 120000000)) = 1 - 1 / 2 ^ 54
   \<and> float_add
        (float_add (float_add 0 (6004799503160661 / 2 ^ 55)) (6004799503160661 / 2 ^ 53))
        (6004799503160661 / 2 ^ 55) = 1 - 1 / 2 ^ 53"
proof -
  have "float_add
        (float_add (float_add 0 (6004799503160661 / 2 ^ 55)) (6004799503160661 / 2 ^ 53))
        (6004799503160661 / 2 ^ 55) = 1 - 1 / 2 ^ 53"
    by code_simp
  then show ?thesis
    by (simp add: mixed_window_features ratio_sum_def feature_get_def)
qed

text \<open>
  Claim C4, amended. For a non-empty window on which \<open>extract_features\<close> returns, every
  selected record falls in exactly one of the classes tcp, udp, icmp and other, decided by
  the presence of the layer key in this order of priority; the four class counts add up
  to the number of selected records; each returned ratio is the class count divided by
  that number, rounded to binary64; and the sum of the four returned ratios is 1 up to
  rounding: their exact sum differs from 1 by at most \<open>2 ^ -52\<close>, and their sum in
  binary64 arithmetic, added from left to right, by at most \<open>2 ^ -50\<close>.
\<close>

theorem protocol_ratios_sum_rounded:
  assumes "extract_features fx now = Inr f" and "window_packets fx now \<noteq> []"
  shows "class_count ''tcp'' (window_packets fx now) + class_count ''udp'' (window_packets fx now)
           + class_count ''icmp'' (window_packets fx now)
           + class_count ''other'' (window_packets fx now) = length (window_packets fx now)
         \<and> (protocol_of ls = ''tcp'') = has_key ls ''tcp''
         \<and> (protocol_of ls = ''udp'') = (\<not> has_key ls ''tcp'' \<and> has_key ls ''udp'')
         \<and> (protocol_of ls = ''icmp'')
             = (\<not> has_key ls ''tcp'' \<and> \<not> has_key ls ''udp'' \<and> has_key ls ''icmp'')
         \<and> (protocol_of ls = ''other'')
             = (\<not> has_key ls ''tcp'' \<and> \<not> has_key ls ''udp'' \<and> \<not> has_key ls ''icmp'')
         \<and> map_of f ''tcp_ratio'' = Some (of_rat (round_binary64
               (of_nat (class_count ''tcp'' (window_packets fx now))
                / of_nat (length (window_packets fx now)))))
         \<and> map_of f ''udp_ratio'' = Some (of_rat (round_binary64
               (of_nat (class_count ''udp'' (window_packets fx now))
                / of_nat (length (window_packets fx now)))))
         \<and> map_of f ''icmp_ratio'' = Some (of_rat (round_binary64
               (of_nat (class_count ''icmp'' (window_packets fx now))
                / of_nat (length (window_packets fx now)))))
         \<and> map_of f ''other_ratio'' = Some (of_rat (round_binary64
               (of_nat (class_count ''other'' (window_packets fx now))
                / of_nat (length (window_packets fx now)))))
         \<and> \<bar>ratio_sum f - 1\<bar> \<le> 1 / 2 ^ 52
         \<and> \<bar>float_add
               (float_add
                 (float_add
                   (round_binary64 (of_nat (class_count ''tcp'' (window_packets fx now))
                      / of_nat (length (window_packets fx now))))
                   (round_binary64 (of_nat (class_count ''udp'' (window_packets fx now))
                      / of_nat (length (window_packets fx now)))))
                 (round_binary64 (of_nat (class_count ''icmp'' (window_packets fx now))
                    / of_nat (length (window_packets fx now)))))
               (round_binary64 (of_nat (class_count ''other'' (window_packets fx now))
                  / of_nat (length (window_packets fx now)))) - 1\<bar> \<le> 1 / 2 ^ 50"
proof -
  note r = extract_features_ratios[OF assms]
  have n: "0 < length (window_packets fx now)"
    using assms(2) by simp
  have "\<bar>ratio_sum f - 1\<bar> \<le> 1 / 2 ^ 52"
    using ratio_sum_bound[OF n class_counts_total[of "window_packets fx now"]]
    by (simp add: ratio_sum_def feature_get_def r)
  then show ?thesis
    using r class_counts_total[of "window_packets fx now"] protocol_of_priority[of ls]
      float_ratio_sum_bound[OF n class_counts_total[of "window_packets fx now"]]
    by simp
qed

theorem protocol_ratios_sum_rounded_witness:
  "window_packets (retained mixed_window) 120000000 \<noteq> []
   \<and> class_count ''tcp'' (window_packets (retained mixed_window) 120000000) = 0
   \<and> class_count ''udp'' (window_packets (retained mixed_window) 120000000) = 1
   \<and> class_count ''icmp'' (window_packets (retained mixed_window) 120000000) = 4
   \<and> class_count ''other'' (window_packets (retained mixed_window) 120000000) = 1
   \<and> \<bar>ratio_sum (projr (extract_features (retained mixed_window) 120000000)) - 1\<bar>
        \<le> 1 / 2 ^ 52"
proof -
  have w: "window_packets (retained mixed_window) 120000000 \<noteq> []"
    by (simp add: window_packets_retained) (simp add: retained_def mixed_window_def)
  have c: "class_count ''tcp'' (window_packets (retained mixed_window) 120000000) = 0"
      "class_count ''udp'' (window_packets (retained mixed_window) 120000000) = 1"
      "class_count ''icmp'' (window_packets (retained mixed_window) 120000000) = 4"
      "class_count ''other'' (window_packets (retained mixed_window) 120000000) = 1"
    unfolding window_packets_retained
    by (simp_all add: retained_def mixed_window_def class_count_def protocol_of_def has_key_def)
  show ?thesis
    using protocol_ratios_sum_rounded[OF mixed_window_features w, of "[(''udp'', PDict [])]"] w c
    by (simp add: mixed_window_features)
qed

end
